theory Spec2Isabelle
  imports Complex_Main
begin

section \<open>Booklet OCR section extractor: the detection-to-record pipeline\<close>

text \<open>
  A shallow embedding of \<^verbatim>\<open>extract_objects_from_images\<close> of
  \<^verbatim>\<open>app/services/booklet_ocr_service/section_extrator.py\<close>.

  The function calls two libraries that are not part of the repository: the YOLO
  detector (\<^verbatim>\<open>YOLO(path)\<close>, \<^verbatim>\<open>model(img, conf, iou)\<close>, \<^verbatim>\<open>model.names\<close>) and
  the image library (\<^verbatim>\<open>Image.open\<close>, \<^verbatim>\<open>img.crop\<close>). They are parameters of the
  model, collected in the record \<open>env\<close>; each may raise, so each returns a sum with the
  exception on the left. Everything between those calls is translated line by line.
\<close>

subsection \<open>Exceptions\<close>

text \<open>
  The exceptions the function itself can raise, and \<open>Raised\<close> for whatever a library
  raises (named by its class, for instance \<^verbatim>\<open>FileNotFoundError\<close>).
\<close>

datatype error =
    IndexError
  | KeyError int
  | ValueError string
  | OverflowError
  | Raised string

subsection \<open>Detector output\<close>

text \<open>
  The detector returns floats. A Python float is a finite number, an infinity or NaN;
  \<^verbatim>\<open>int(x)\<close> truncates a finite float toward zero, raises OverflowError on an
  infinity and ValueError on NaN.
\<close>

datatype pyfloat = Finite real | PosInf | NegInf | NaN

definition trunc :: "real \<Rightarrow> int" where
  "trunc x = (if 0 \<le> x then \<lfloor>x\<rfloor> else \<lceil>x\<rceil>)"

fun py_int :: "pyfloat \<Rightarrow> error + int" where
  "py_int (Finite x) = Inr (trunc x)"
| "py_int PosInf = Inl OverflowError"
| "py_int NegInf = Inl OverflowError"
| "py_int NaN = Inl (ValueError ''cannot convert float NaN to integer'')"

text \<open>
  A \<^verbatim>\<open>Boxes\<close> object wraps one tensor with a row
  \<^verbatim>\<open>[x1, y1, x2, y2, conf, cls]\<close> per detection; \<^verbatim>\<open>boxes.cls\<close> and
  \<^verbatim>\<open>boxes.xyxy\<close> are its last column and its first four columns, so both have one
  entry per row. \<^verbatim>\<open>r.boxes\<close> is \<^verbatim>\<open>None\<close> for a result without boxes.
\<close>

record det_row =
  row_x1 :: pyfloat
  row_y1 :: pyfloat
  row_x2 :: pyfloat
  row_y2 :: pyfloat
  row_conf :: pyfloat
  row_cls :: pyfloat

type_synonym boxes = "det_row list"

type_synonym yolo_result = "boxes option"

type_synonym box = "int \<times> int \<times> int \<times> int"

definition boxes_cls :: "boxes \<Rightarrow> pyfloat list" where
  "boxes_cls bs = map row_cls bs"

definition boxes_xyxy :: "boxes \<Rightarrow> (pyfloat \<times> pyfloat \<times> pyfloat \<times> pyfloat) list" where
  "boxes_xyxy bs = map (\<lambda>r. (row_x1 r, row_y1 r, row_x2 r, row_y2 r)) bs"

text \<open>Truth value of \<^verbatim>\<open>r.boxes\<close>: false for \<^verbatim>\<open>None\<close> and for a \<^verbatim>\<open>Boxes\<close> of length zero.\<close>

definition boxes_truthy :: "yolo_result \<Rightarrow> bool" where
  "boxes_truthy r = (case r of None \<Rightarrow> False | Some bs \<Rightarrow> bs \<noteq> [])"

subsection \<open>The libraries\<close>

text \<open>
  \<open>'m\<close> is the loaded model, \<open>'img\<close> an opened image, \<open>'c\<close> a cropped image.
  \<^item> \<open>yolo_load path\<close> is \<^verbatim>\<open>YOLO(path)\<close>;
  \<^item> \<open>image_open path\<close> is \<^verbatim>\<open>Image.open(path)\<close>;
  \<^item> \<open>model_call m img conf iou\<close> is \<^verbatim>\<open>model(img, conf=conf, iou=iou)\<close>;
  \<^item> \<open>model_names m\<close> is the dictionary \<^verbatim>\<open>model.names\<close>;
  \<^item> \<open>image_crop img (x1, y1, x2, y2)\<close> is \<^verbatim>\<open>img.crop((x1, y1, x2, y2))\<close>.
\<close>

record ('m, 'img, 'c) env =
  yolo_load :: "string \<Rightarrow> error + 'm"
  image_open :: "string \<Rightarrow> error + 'img"
  model_call :: "'m \<Rightarrow> 'img \<Rightarrow> real \<Rightarrow> real \<Rightarrow> error + yolo_result list"
  model_names :: "'m \<Rightarrow> int \<rightharpoonup> string"
  image_crop :: "'img \<Rightarrow> box \<Rightarrow> error + 'c"

subsection \<open>Result values\<close>

text \<open>
  The function returns Python dictionaries with string keys, whose values are strings,
  nested dictionaries, cropped images or \<^verbatim>\<open>None\<close>. A dictionary is the list of its
  entries in insertion order.
\<close>

datatype 'c pyval =
    PNone
  | PStr string
  | PImage 'c
  | PDict "(string \<times> 'c pyval) list"

definition keys :: "'c pyval \<Rightarrow> string list" where
  "keys v = (case v of PDict kvs \<Rightarrow> map fst kvs | _ \<Rightarrow> [])"

definition getitem :: "'c pyval \<Rightarrow> string \<Rightarrow> 'c pyval option" where
  "getitem v k = (case v of PDict kvs \<Rightarrow> map_of kvs k | _ \<Rightarrow> None)"

text \<open>\<^verbatim>\<open>detections.get(k)\<close>: the stored crop, or \<^verbatim>\<open>None\<close> when the key is missing.\<close>

definition dict_get :: "(string \<rightharpoonup> 'c) \<Rightarrow> string \<Rightarrow> 'c pyval" where
  "dict_get detections k = (case detections k of None \<Rightarrow> PNone | Some c \<Rightarrow> PImage c)"

subsection \<open>The function\<close>

text \<open>Line 17: the path of the weights, \<^verbatim>\<open>"app\\ml_models\\cdr_book_v2_100_multiple_class.pt"\<close>.\<close>

definition model_path :: string where
  "model_path =
     ''app'' @ CHR 0x5C # ''ml_models'' @ CHR 0x5C # ''cdr_book_v2_100_multiple_class.pt''"

text \<open>
  Lines 37 to 41, the body of the inner loop up to the crop: the class id is converted
  with \<^verbatim>\<open>int\<close> and looked up in \<^verbatim>\<open>model.names\<close> (a missing key raises KeyError),
  the four coordinates are converted with \<^verbatim>\<open>int\<close> in order, and the image is cropped
  at the converted box.
\<close>

definition detect_box ::
  "('m, 'img, 'c) env \<Rightarrow> 'm \<Rightarrow> 'img \<Rightarrow> pyfloat \<Rightarrow>
   pyfloat \<times> pyfloat \<times> pyfloat \<times> pyfloat \<Rightarrow> error + (string \<times> 'c)" where
  "detect_box env m img class_id coords =
     (case py_int class_id of
        Inl e \<Rightarrow> Inl e
      | Inr cls \<Rightarrow>
     (case model_names env m cls of
        None \<Rightarrow> Inl (KeyError cls)
      | Some name \<Rightarrow>
     (case coords of (fx1, fy1, fx2, fy2) \<Rightarrow>
     (case py_int fx1 of Inl e \<Rightarrow> Inl e | Inr x1 \<Rightarrow>
     (case py_int fy1 of Inl e \<Rightarrow> Inl e | Inr y1 \<Rightarrow>
     (case py_int fx2 of Inl e \<Rightarrow> Inl e | Inr x2 \<Rightarrow>
     (case py_int fy2 of Inl e \<Rightarrow> Inl e | Inr y2 \<Rightarrow>
     (case image_crop env img (x1, y1, x2, y2) of
        Inl e \<Rightarrow> Inl e
      | Inr cropped \<Rightarrow> Inr (name, cropped)))))))))"

text \<open>
  Lines 36 to 43: \<^verbatim>\<open>for i in range(len(class_ids))\<close>, storing each crop under its
  class name (\<^verbatim>\<open>detections[name] = cropped\<close>). The third list holds the indices still
  to visit.
\<close>

fun boxes_loop ::
  "('m, 'img, 'c) env \<Rightarrow> 'm \<Rightarrow> 'img \<Rightarrow> pyfloat list \<Rightarrow>
   (pyfloat \<times> pyfloat \<times> pyfloat \<times> pyfloat) list \<Rightarrow> nat list \<Rightarrow>
   (string \<rightharpoonup> 'c) \<Rightarrow> error + (string \<rightharpoonup> 'c)" where
  "boxes_loop env m img class_ids xyxy [] detections = Inr detections"
| "boxes_loop env m img class_ids xyxy (i # is) detections =
     (case detect_box env m img (class_ids ! i) (xyxy ! i) of
        Inl e \<Rightarrow> Inl e
      | Inr (name, cropped) \<Rightarrow>
          boxes_loop env m img class_ids xyxy is (detections(name \<mapsto> cropped)))"

text \<open>Lines 31 to 43: \<^verbatim>\<open>for r in res\<close>, skipping a result whose boxes are falsy.\<close>

fun res_loop ::
  "('m, 'img, 'c) env \<Rightarrow> 'm \<Rightarrow> 'img \<Rightarrow> yolo_result list \<Rightarrow>
   (string \<rightharpoonup> 'c) \<Rightarrow> error + (string \<rightharpoonup> 'c)" where
  "res_loop env m img [] detections = Inr detections"
| "res_loop env m img (r # rs) detections =
     (if boxes_truthy r then
        (let bs = the r; class_ids = boxes_cls bs; xyxy = boxes_xyxy bs in
         case boxes_loop env m img class_ids xyxy [0..<length class_ids] detections of
           Inl e \<Rightarrow> Inl e
         | Inr detections' \<Rightarrow> res_loop env m img rs detections')
      else res_loop env m img rs detections)"

text \<open>Lines 46 to 73: the result dictionary for the key, or ValueError for any other key.\<close>

definition build_result :: "string \<Rightarrow> (string \<rightharpoonup> 'c) \<Rightarrow> error + 'c pyval" where
  "build_result key detections =
     (if key = ''outlet_copy'' then
        Inr (PDict [(''type'', PStr ''outlet_copy''),
                    (''data'', PDict [(''outlet_id'', dict_get detections ''outlet_id'')])])
      else if key = ''partner_copy'' then
        (let partner_1_data = PDict
               [(''name_1'', dict_get detections ''name_1''),
                (''partner_code_1'', dict_get detections ''partner_code_1''),
                (''age_1'', dict_get detections ''age_1''),
                (''date_1'', dict_get detections ''date_1''),
                (''sign_1'', dict_get detections ''sign_1''),
                (''cheek_mark_1'', dict_get detections ''cheek_mark_1''),
                (''phn_number_1'', dict_get detections ''phn_number_1'')];
             partner_2_data = PDict
               [(''name'', dict_get detections ''name''),
                (''partner_code'', dict_get detections ''partner_code''),
                (''age'', dict_get detections ''age''),
                (''date'', dict_get detections ''date''),
                (''sign'', dict_get detections ''sign''),
                (''cheek_mark'', dict_get detections ''cheek_mark''),
                (''phn_number'', dict_get detections ''phn_number'')]
         in Inr (PDict [(''type'', PStr ''partner_copy''),
                        (''data'', PDict [(''partner_1'', partner_1_data),
                                          (''partner_2'', partner_2_data)])]))
      else Inl (ValueError (''Unknown image type: '' @ key)))"

text \<open>
  Lines 21 to 73, the body of the outer loop for one item. An item is a dictionary from
  strings to strings; \<^verbatim>\<open>list(img_dict.items())[0]\<close> is its first entry and raises
  IndexError when there is none.
\<close>

definition process_item ::
  "('m, 'img, 'c) env \<Rightarrow> 'm \<Rightarrow> (string \<times> string) list \<Rightarrow> error + 'c pyval" where
  "process_item env m img_dict =
     (case img_dict of
        [] \<Rightarrow> Inl IndexError
      | (key, img_path) # _ \<Rightarrow>
     (case image_open env img_path of
        Inl e \<Rightarrow> Inl e
      | Inr img \<Rightarrow>
     (case model_call env m img 0.5 0.45 of
        Inl e \<Rightarrow> Inl e
      | Inr res \<Rightarrow>
     (case res_loop env m img res Map.empty of
        Inl e \<Rightarrow> Inl e
      | Inr detections \<Rightarrow> build_result key detections))))"

text \<open>Lines 19 to 76: \<^verbatim>\<open>for img_dict in images\<close>, appending each result.\<close>

fun images_loop ::
  "('m, 'img, 'c) env \<Rightarrow> 'm \<Rightarrow> (string \<times> string) list list \<Rightarrow>
   'c pyval list \<Rightarrow> error + 'c pyval list" where
  "images_loop env m [] results = Inr results"
| "images_loop env m (img_dict # images) results =
     (case process_item env m img_dict of
        Inl e \<Rightarrow> Inl e
      | Inr result \<Rightarrow> images_loop env m images (results @ [result]))"

definition extract_objects_from_images ::
  "('m, 'img, 'c) env \<Rightarrow> (string \<times> string) list list \<Rightarrow> error + 'c pyval list" where
  "extract_objects_from_images env images =
     (case yolo_load env model_path of
        Inl e \<Rightarrow> Inl e
      | Inr model \<Rightarrow> images_loop env model images [])"

section \<open>Vocabulary of the statements\<close>

text \<open>
  The detections of one image in the detector's output order: the rows of every result,
  result after result. One row's trip through lines 37 to 41 is \<open>row_detect\<close>.
\<close>

definition detected_rows :: "yolo_result list \<Rightarrow> det_row list" where
  "detected_rows res = concat (map (\<lambda>r. case r of None \<Rightarrow> [] | Some bs \<Rightarrow> bs) res)"

definition row_detect ::
  "('m, 'img, 'c) env \<Rightarrow> 'm \<Rightarrow> 'img \<Rightarrow> det_row \<Rightarrow> error + (string \<times> 'c)" where
  "row_detect env m img row =
     detect_box env m img (row_cls row) (row_x1 row, row_y1 row, row_x2 row, row_y2 row)"

text \<open>The crop stored last under a class name in a list of (name, crop) pairs.\<close>

definition last_of_class :: "string \<Rightarrow> (string \<times> 'c) list \<Rightarrow> 'c option" where
  "last_of_class name ncs =
     (case filter (\<lambda>nc. fst nc = name) ncs of
        [] \<Rightarrow> None
      | nc # rest \<Rightarrow> Some (snd (last (nc # rest))))"

text \<open>Reading a nested dictionary along a list of keys.\<close>

fun getpath :: "'c pyval \<Rightarrow> string list \<Rightarrow> 'c pyval option" where
  "getpath v [] = Some v"
| "getpath v (k # ks) = (case getitem v k of None \<Rightarrow> None | Some w \<Rightarrow> getpath w ks)"

text \<open>
  The two record variants as the specification describes them (its data model and its
  schema mapper), as predicates on result dictionaries: an outlet record has the single
  field \<open>outlet_id\<close>; a partner record has \<open>partner_1\<close> with the seven fields
  suffixed \<open>_1\<close> and \<open>partner_2\<close> with the same seven names without the suffix.
\<close>

definition partner_1_fields :: "string list" where
  "partner_1_fields =
     [''name_1'', ''partner_code_1'', ''age_1'', ''date_1'', ''sign_1'', ''cheek_mark_1'',
      ''phn_number_1'']"

definition partner_2_fields :: "string list" where
  "partner_2_fields =
     [''name'', ''partner_code'', ''age'', ''date'', ''sign'', ''cheek_mark'', ''phn_number'']"

definition outlet_schema :: "'c pyval \<Rightarrow> bool" where
  "outlet_schema r =
     (keys r = [''type'', ''data''] \<and> getitem r ''type'' = Some (PStr ''outlet_copy'') \<and>
      (case getitem r ''data'' of
         None \<Rightarrow> False
       | Some d \<Rightarrow> keys d = [''outlet_id'']))"

definition partner_schema :: "'c pyval \<Rightarrow> bool" where
  "partner_schema r =
     (keys r = [''type'', ''data''] \<and> getitem r ''type'' = Some (PStr ''partner_copy'') \<and>
      (case getitem r ''data'' of
         None \<Rightarrow> False
       | Some d \<Rightarrow>
           keys d = [''partner_1'', ''partner_2''] \<and>
           (case getitem d ''partner_1'' of
              None \<Rightarrow> False
            | Some p \<Rightarrow> keys p = partner_1_fields) \<and>
           (case getitem d ''partner_2'' of
              None \<Rightarrow> False
            | Some p \<Rightarrow> keys p = partner_2_fields)))"

text \<open>
  The cropper of the specification clamps a box to the image before cropping. This is
  the specification's rule, written down to compare the code with it; the code has no
  counterpart.
\<close>

definition spec_clamp_box :: "int \<Rightarrow> int \<Rightarrow> box \<Rightarrow> box" where
  "spec_clamp_box w h b =
     (case b of (x1, y1, x2, y2) \<Rightarrow>
        (max 0 (min w x1), max 0 (min h y1), max 0 (min w x2), max 0 (min h y2)))"

section \<open>Concrete libraries for evaluation\<close>

text \<open>
  A small instance of the libraries, on which the function is evaluated below. An image
  is its path and its size, every image is 100 by 100, and a crop is the pair of the
  image and the box the crop was asked for, so a result shows which box reached
  \<^verbatim>\<open>img.crop\<close>. The model knows three classes. What the detector returns depends on
  the image's path only.
\<close>

record pil_image =
  img_path :: string
  img_width :: int
  img_height :: int

definition mk_row :: "real \<Rightarrow> real \<Rightarrow> real \<Rightarrow> real \<Rightarrow> real \<Rightarrow> real \<Rightarrow> det_row" where
  "mk_row a b c d conf cls =
     \<lparr>row_x1 = Finite a, row_y1 = Finite b, row_x2 = Finite c, row_y2 = Finite d,
      row_conf = Finite conf, row_cls = Finite cls\<rparr>"

definition sample_image :: "string \<Rightarrow> pil_image" where
  "sample_image path = \<lparr>img_path = path, img_width = 100, img_height = 100\<rparr>"

definition sample_open :: "string \<Rightarrow> error + pil_image" where
  "sample_open path =
     (if path = ''missing.jpg'' then Inl (Raised ''FileNotFoundError'')
      else Inr (sample_image path))"

definition sample_call :: "unit \<Rightarrow> pil_image \<Rightarrow> real \<Rightarrow> real \<Rightarrow> error + yolo_result list" where
  "sample_call m img conf iou =
     (if img_path img = ''A.jpg'' then Inr [Some [mk_row 10 10 50 50 0.9 0]]
      else if img_path img = ''dup.jpg'' then
        Inr [Some [mk_row 10 10 50 50 0.9 1, mk_row 20 60 90 80 0.6 1]]
      else if img_path img = ''wide.jpg'' then Inr [Some [mk_row 10 10 150 50 0.9 0]]
      else if img_path img = ''outside.jpg'' then Inr [Some [mk_row 120 10 150 50 0.9 0]]
      else if img_path img = ''edge.jpg'' then Inr [Some [mk_row (-5) 90 40 130 0.7 0]]
      else if img_path img = ''frac.jpg'' then Inr [Some [mk_row 10.7 (-0.5) 50.9 60.5 0.8 0]]
      else if img_path img = ''alien.jpg'' then Inr [Some [mk_row 10 10 50 50 0.9 7]]
      else if img_path img = ''corrupt.jpg'' then Inl (Raised ''RuntimeError'')
      else Inr [Some []])"

definition sample_names :: "int \<rightharpoonup> string" where
  "sample_names = [0 \<mapsto> ''outlet_id'', 1 \<mapsto> ''name_1'', 2 \<mapsto> ''name'']"

definition sample_env :: "(unit, pil_image, pil_image \<times> box) env" where
  "sample_env =
     \<lparr>yolo_load = (\<lambda>path. Inr ()),
      image_open = sample_open,
      model_call = sample_call,
      model_names = (\<lambda>m. sample_names),
      image_crop = (\<lambda>img b. Inr (img, b))\<rparr>"

text \<open>
  A second instance: the same libraries, except that one file that no batch below
  mentions cannot be opened.
\<close>

definition other_env :: "(unit, pil_image, pil_image \<times> box) env" where
  "other_env =
     sample_env\<lparr>image_open :=
       (\<lambda>path. if path = ''elsewhere.jpg'' then Inl (Raised ''PermissionError'')
               else sample_open path)\<rparr>"

section \<open>The outer loop\<close>

lemma images_loop_Inr_iff:
  "images_loop env m images acc = Inr rs \<longleftrightarrow>
     (\<exists>ys. rs = acc @ ys \<and> length ys = length images \<and>
           (\<forall>i < length images. process_item env m (images ! i) = Inr (ys ! i)))"
proof (induction images arbitrary: acc rs)
  case Nil
  then show ?case by auto
next
  case (Cons d ds)
  show ?case
  proof (cases "process_item env m d")
    case (Inl e)
    then show ?thesis by (auto simp: nth_Cons split: nat.splits)
  next
    case (Inr r)
    show ?thesis
    proof
      assume "images_loop env m (d # ds) acc = Inr rs"
      with Inr Cons.IH obtain ys where ys: "rs = (acc @ [r]) @ ys" "length ys = length ds"
        "\<forall>i < length ds. process_item env m (ds ! i) = Inr (ys ! i)"
        by auto
      have "rs = acc @ (r # ys)" using ys(1) by simp
      moreover have "length (r # ys) = length (d # ds)" using ys(2) by simp
      moreover have "\<forall>i < length (d # ds). process_item env m ((d # ds) ! i) = Inr ((r # ys) ! i)"
        using ys(3) Inr by (auto simp: nth_Cons split: nat.splits)
      ultimately show "\<exists>ys. rs = acc @ ys \<and> length ys = length (d # ds) \<and>
           (\<forall>i < length (d # ds). process_item env m ((d # ds) ! i) = Inr (ys ! i))"
        by blast
    next
      assume "\<exists>ys. rs = acc @ ys \<and> length ys = length (d # ds) \<and>
           (\<forall>i < length (d # ds). process_item env m ((d # ds) ! i) = Inr (ys ! i))"
      then obtain ys where ys: "rs = acc @ ys" "length ys = length (d # ds)"
        "\<forall>i < length (d # ds). process_item env m ((d # ds) ! i) = Inr (ys ! i)"
        by blast
      from ys(2) obtain y ys' where yy: "ys = y # ys'" by (cases ys) auto
      from ys(3) have "process_item env m d = Inr y" using yy by force
      with Inr have [simp]: "y = r" by simp
      have "\<forall>i < length ds. process_item env m (ds ! i) = Inr (ys' ! i)"
        using ys(3) yy by force
      with ys yy have "images_loop env m ds (acc @ [r]) = Inr rs"
        using Cons.IH[of "acc @ [r]" rs] by auto
      with Inr show "images_loop env m (d # ds) acc = Inr rs" by simp
    qed
  qed
qed

lemma images_loop_first_failure:
  assumes "i < length images"
    and "process_item env m (images ! i) = Inl e"
    and "\<forall>j < i. \<exists>r. process_item env m (images ! j) = Inr r"
  shows "images_loop env m images acc = Inl e"
  using assms
proof (induction images arbitrary: i acc)
  case Nil
  then show ?case by simp
next
  case (Cons d ds)
  show ?case
  proof (cases i)
    case 0
    with Cons.prems show ?thesis by simp
  next
    case (Suc k)
    with Cons.prems(3) obtain r where r: "process_item env m d = Inr r" by force
    have "k < length ds" using Cons.prems(1) Suc by simp
    moreover have "process_item env m (ds ! k) = Inl e" using Cons.prems(2) Suc by simp
    moreover have "\<forall>j < k. \<exists>r. process_item env m (ds ! j) = Inr r"
    proof (intro allI impI)
      fix j assume "j < k"
      then have "Suc j < i" using Suc by simp
      with Cons.prems(3) show "\<exists>r. process_item env m (ds ! j) = Inr r" by fastforce
    qed
    ultimately have "images_loop env m ds (acc @ [r]) = Inl e" by (rule Cons.IH)
    with r show ?thesis by simp
  qed
qed

lemma process_item_first_entry: "process_item env m (entry # rest) = process_item env m [entry]"
  by (simp add: process_item_def split: prod.splits)

lemma sample_load [simp]: "yolo_load sample_env p = Inr ()"
  by (simp add: sample_env_def)

lemma sample_item_A:
  "process_item sample_env () ((''outlet_copy'', ''A.jpg'') # rest) =
     Inr (PDict [(''type'', PStr ''outlet_copy''),
                 (''data'', PDict [(''outlet_id'', PImage (sample_image ''A.jpg'', (10, 10, 50, 50)))])])"
  by (simp add: process_item_def sample_env_def sample_open_def sample_call_def sample_image_def
      boxes_truthy_def boxes_cls_def boxes_xyxy_def detect_box_def mk_row_def sample_names_def
      trunc_def build_result_def dict_get_def)

lemma sample_item_none:
  "process_item sample_env () ((''partner_copy'', ''B.jpg'') # rest) =
     Inr (PDict [(''type'', PStr ''partner_copy''),
                 (''data'', PDict
                    [(''partner_1'', PDict
                        [(''name_1'', PNone), (''partner_code_1'', PNone), (''age_1'', PNone),
                         (''date_1'', PNone), (''sign_1'', PNone), (''cheek_mark_1'', PNone),
                         (''phn_number_1'', PNone)]),
                     (''partner_2'', PDict
                        [(''name'', PNone), (''partner_code'', PNone), (''age'', PNone),
                         (''date'', PNone), (''sign'', PNone), (''cheek_mark'', PNone),
                         (''phn_number'', PNone)])])])"
  by (simp add: process_item_def sample_env_def sample_open_def sample_call_def sample_image_def
      boxes_truthy_def build_result_def dict_get_def)

lemma sample_item_missing:
  "process_item sample_env () ((key, ''missing.jpg'') # rest) = Inl (Raised ''FileNotFoundError'')"
  by (simp add: process_item_def sample_env_def sample_open_def)

lemma sample_item_corrupt:
  "process_item sample_env () ((key, ''corrupt.jpg'') # rest) = Inl (Raised ''RuntimeError'')"
  by (simp add: process_item_def sample_env_def sample_open_def sample_call_def sample_image_def)

lemma sample_item_unknown:
  "process_item sample_env () ((''receipt'', ''A.jpg'') # rest) =
     Inl (ValueError ''Unknown image type: receipt'')"
  by (simp add: process_item_def sample_env_def sample_open_def sample_call_def sample_image_def
      boxes_truthy_def boxes_cls_def boxes_xyxy_def detect_box_def mk_row_def sample_names_def
      trunc_def build_result_def dict_get_def)

lemma sample_item_alien:
  "process_item sample_env () ((key, ''alien.jpg'') # rest) = Inl (KeyError 7)"
  by (simp add: process_item_def sample_env_def sample_open_def sample_call_def sample_image_def
      boxes_truthy_def boxes_cls_def boxes_xyxy_def detect_box_def mk_row_def sample_names_def
      trunc_def)

lemma process_item_open_fails:
  "image_open env path = Inl e \<Longrightarrow> process_item env m ((key, path) # rest) = Inl e"
  by (simp add: process_item_def)

lemma process_item_call_fails:
  "image_open env path = Inr img \<Longrightarrow> model_call env m img 0.5 0.45 = Inl e \<Longrightarrow>
   process_item env m ((key, path) # rest) = Inl e"
  by (simp add: process_item_def)

lemma process_item_loop_fails:
  "image_open env path = Inr img \<Longrightarrow> model_call env m img 0.5 0.45 = Inr res \<Longrightarrow>
   res_loop env m img res Map.empty = Inl e \<Longrightarrow>
   process_item env m ((key, path) # rest) = Inl e"
  by (simp add: process_item_def)

lemma process_item_built:
  "image_open env path = Inr img \<Longrightarrow> model_call env m img 0.5 0.45 = Inr res \<Longrightarrow>
   res_loop env m img res Map.empty = Inr dets \<Longrightarrow>
   process_item env m ((key, path) # rest) = build_result key dets"
  by (simp add: process_item_def)

lemma build_result_unknown:
  "key \<noteq> ''outlet_copy'' \<Longrightarrow> key \<noteq> ''partner_copy'' \<Longrightarrow>
   build_result key dets = Inl (ValueError (''Unknown image type: '' @ key))"
  by (simp add: build_result_def)

lemma extract_first_failure:
  assumes "yolo_load env model_path = Inr m"
    and "i < length images"
    and "\<forall>j < i. \<exists>r. process_item env m (images ! j) = Inr r"
    and "process_item env m (images ! i) = Inl e"
  shows "extract_objects_from_images env images = Inl e"
  using assms by (simp add: extract_objects_from_images_def images_loop_first_failure)

lemma process_item_take_1: "process_item env m (take (Suc 0) d) = process_item env m d"
  by (cases d) (simp_all add: process_item_def)

lemma images_loop_take_1:
  "images_loop env m (map (take 1) images) acc = images_loop env m images acc"
  by (induction images arbitrary: acc) (simp_all add: process_item_take_1 split: sum.splits)

lemma extract_no_list_with_empty_item:
  assumes "[] \<in> set images"
  shows "extract_objects_from_images env images \<noteq> Inr rs"
proof
  assume "extract_objects_from_images env images = Inr rs"
  then obtain m where m: "images_loop env m images [] = Inr rs"
    by (auto simp: extract_objects_from_images_def split: sum.splits)
  from assms obtain i where i: "i < length images" "images ! i = []"
    by (auto simp: in_set_conv_nth)
  from m i have "process_item env m [] = Inr (rs ! i)"
    by (auto simp: images_loop_Inr_iff)
  then show False by (simp add: process_item_def)
qed

subsection \<open>The detection loops\<close>

lemma detect_box_nth:
  "i < length bs \<Longrightarrow>
   detect_box env m img (boxes_cls bs ! i) (boxes_xyxy bs ! i) = row_detect env m img (bs ! i)"
  by (simp add: boxes_cls_def boxes_xyxy_def row_detect_def)

lemma boxes_loop_indices:
  assumes "\<forall>i \<in> set is. i < length bs"
    and "map (\<lambda>i. row_detect env m img (bs ! i)) is = map Inr ncs"
  shows "boxes_loop env m img (boxes_cls bs) (boxes_xyxy bs) is dets =
           Inr (dets ++ map_of (rev ncs))"
  using assms
proof (induction "is" arbitrary: dets ncs)
  case Nil
  then show ?case by simp
next
  case (Cons i "is")
  from Cons.prems(2) obtain nc ncs' where ncs: "ncs = nc # ncs'"
    and nc: "row_detect env m img (bs ! i) = Inr nc"
    and rest: "map (\<lambda>i. row_detect env m img (bs ! i)) is = map Inr ncs'"
    by (cases ncs) auto
  obtain name cropped where p: "nc = (name, cropped)" by (cases nc)
  have i: "i < length bs" using Cons.prems(1) by simp
  have "boxes_loop env m img (boxes_cls bs) (boxes_xyxy bs) (i # is) dets =
      boxes_loop env m img (boxes_cls bs) (boxes_xyxy bs) is (dets(name \<mapsto> cropped))"
    using nc p i by (simp add: detect_box_nth)
  also have "\<dots> = Inr (dets(name \<mapsto> cropped) ++ map_of (rev ncs'))"
    using Cons.prems(1) rest by (intro Cons.IH) auto
  also have "dets(name \<mapsto> cropped) ++ map_of (rev ncs') = dets ++ map_of (rev ncs)"
    by (simp add: ncs p map_add_upd_left fun_eq_iff map_add_def split: option.splits)
  finally show ?case .
qed

lemma boxes_loop_rows:
  assumes "map (row_detect env m img) bs = map Inr ncs"
  shows "boxes_loop env m img (boxes_cls bs) (boxes_xyxy bs) [0..<length (boxes_cls bs)] dets =
           Inr (dets ++ map_of (rev ncs))"
proof -
  have "map (\<lambda>i. row_detect env m img (bs ! i)) [0..<length bs] =
      map (row_detect env m img) (map ((!) bs) [0..<length bs])"
    by simp
  also have "\<dots> = map Inr ncs"
    using assms by (simp only: map_nth)
  finally have "boxes_loop env m img (boxes_cls bs) (boxes_xyxy bs) [0..<length bs] dets =
      Inr (dets ++ map_of (rev ncs))"
    by (intro boxes_loop_indices) auto
  then show ?thesis by (simp add: boxes_cls_def)
qed

lemma res_loop_rows:
  assumes "map (row_detect env m img) (detected_rows res) = map Inr ncs"
  shows "res_loop env m img res dets = Inr (dets ++ map_of (rev ncs))"
  using assms
proof (induction res arbitrary: dets ncs)
  case Nil
  then show ?case by (simp add: detected_rows_def)
next
  case (Cons r rs)
  define bs where "bs = (case r of None \<Rightarrow> [] | Some bs \<Rightarrow> bs)"
  have rows: "detected_rows (r # rs) = bs @ detected_rows rs"
    by (simp add: detected_rows_def bs_def)
  define ncs1 where "ncs1 = take (length bs) ncs"
  define ncs2 where "ncs2 = drop (length bs) ncs"
  have split: "ncs = ncs1 @ ncs2"
    by (simp add: ncs1_def ncs2_def)
  have "map (row_detect env m img) bs @ map (row_detect env m img) (detected_rows rs) =
      map Inr ncs"
    using Cons.prems rows by simp
  then have one: "map (row_detect env m img) bs = map Inr ncs1"
    and two: "map (row_detect env m img) (detected_rows rs) = map Inr ncs2"
    unfolding ncs1_def ncs2_def
    by (metis append_eq_conv_conj length_map take_map, metis append_eq_conv_conj length_map drop_map)
  have tail: "res_loop env m img rs d = Inr (d ++ map_of (rev ncs2))" for d
    using two by (rule Cons.IH)
  show ?case
  proof (cases "boxes_truthy r")
    case True
    then have r: "r = Some bs"
      by (auto simp: boxes_truthy_def bs_def split: option.splits)
    have "boxes_loop env m img (boxes_cls bs) (boxes_xyxy bs) [0..<length (boxes_cls bs)] dets =
        Inr (dets ++ map_of (rev ncs1))"
      using one by (rule boxes_loop_rows)
    then have "res_loop env m img (r # rs) dets =
        Inr ((dets ++ map_of (rev ncs1)) ++ map_of (rev ncs2))"
      using True r tail by (simp add: Let_def)
    then show ?thesis by (simp add: split)
  next
    case False
    then have "bs = []"
      by (auto simp: boxes_truthy_def bs_def split: option.splits)
    with one have "ncs1 = []" by simp
    with False tail show ?thesis by (simp add: split)
  qed
qed

lemma boxes_loop_Inr_indices:
  assumes "\<forall>i \<in> set is. i < length bs"
    and "boxes_loop env m img (boxes_cls bs) (boxes_xyxy bs) is dets = Inr d"
  shows "\<exists>ncs. map (\<lambda>i. row_detect env m img (bs ! i)) is = map Inr ncs"
  using assms
proof (induction "is" arbitrary: dets)
  case Nil
  then show ?case by simp
next
  case (Cons i "is")
  have i: "i < length bs" using Cons.prems(1) by simp
  show ?case
  proof (cases "row_detect env m img (bs ! i)")
    case (Inl e)
    with Cons.prems(2) i show ?thesis by (simp add: detect_box_nth)
  next
    case (Inr nc)
    obtain name cropped where nc: "nc = (name, cropped)" by (cases nc)
    from Cons.prems(2) Inr nc i
    have "boxes_loop env m img (boxes_cls bs) (boxes_xyxy bs) is (dets(name \<mapsto> cropped)) = Inr d"
      by (simp add: detect_box_nth)
    with Cons.prems(1) obtain ncs where
      "map (\<lambda>i. row_detect env m img (bs ! i)) is = map Inr ncs"
      using Cons.IH by fastforce
    with Inr have "map (\<lambda>i. row_detect env m img (bs ! i)) (i # is) = map Inr (nc # ncs)"
      by simp
    then show ?thesis by blast
  qed
qed

lemma boxes_loop_Inr_rows:
  assumes "boxes_loop env m img (boxes_cls bs) (boxes_xyxy bs) [0..<length (boxes_cls bs)] dets =
      Inr d"
  shows "\<exists>ncs. map (row_detect env m img) bs = map Inr ncs"
proof -
  from assms have "boxes_loop env m img (boxes_cls bs) (boxes_xyxy bs) [0..<length bs] dets = Inr d"
    by (simp add: boxes_cls_def)
  then obtain ncs where "map (\<lambda>i. row_detect env m img (bs ! i)) [0..<length bs] = map Inr ncs"
    using boxes_loop_Inr_indices [of "[0..<length bs]" bs env m img dets d] by auto
  moreover have "map (\<lambda>i. row_detect env m img (bs ! i)) [0..<length bs] =
      map (row_detect env m img) (map ((!) bs) [0..<length bs])"
    by simp
  ultimately have "map (row_detect env m img) bs = map Inr ncs"
    by (simp only: map_nth)
  then show ?thesis by blast
qed

lemma res_loop_Inr_rows:
  assumes "res_loop env m img res dets = Inr d"
  shows "\<exists>ncs. map (row_detect env m img) (detected_rows res) = map Inr ncs"
  using assms
proof (induction res arbitrary: dets)
  case Nil
  then show ?case by (simp add: detected_rows_def)
next
  case (Cons r rs)
  show ?case
  proof (cases "boxes_truthy r")
    case True
    then obtain bs where r: "r = Some bs"
      by (auto simp: boxes_truthy_def split: option.splits)
    from Cons.prems True r obtain d1 where
      one: "boxes_loop env m img (boxes_cls bs) (boxes_xyxy bs) [0..<length (boxes_cls bs)] dets =
        Inr d1"
      and two: "res_loop env m img rs d1 = Inr d"
      by (auto simp: Let_def split: sum.splits)
    from boxes_loop_Inr_rows [OF one]
    obtain ncs1 where "map (row_detect env m img) bs = map Inr ncs1" ..
    moreover from Cons.IH [OF two]
    obtain ncs2 where "map (row_detect env m img) (detected_rows rs) = map Inr ncs2" ..
    ultimately have "map (row_detect env m img) (detected_rows (r # rs)) = map Inr (ncs1 @ ncs2)"
      by (simp add: detected_rows_def r)
    then show ?thesis by blast
  next
    case False
    then have "detected_rows (r # rs) = detected_rows rs"
      by (auto simp: boxes_truthy_def detected_rows_def split: option.splits)
    moreover from Cons.prems False have "res_loop env m img rs dets = Inr d"
      by simp
    ultimately show ?thesis using Cons.IH [of dets] by simp
  qed
qed

lemma last_of_class_filter:
  "last_of_class name ncs =
     (if filter (\<lambda>nc. fst nc = name) ncs = [] then None
      else Some (snd (last (filter (\<lambda>nc. fst nc = name) ncs))))"
  by (cases "filter (\<lambda>nc. fst nc = name) ncs") (simp_all add: last_of_class_def)

lemma last_of_class_snoc:
  "last_of_class name (ncs @ [nc]) =
     (if fst nc = name then Some (snd nc) else last_of_class name ncs)"
  by (simp add: last_of_class_filter)

lemma map_of_rev_last: "map_of (rev ncs) name = last_of_class name ncs"
proof (induction ncs rule: rev_induct)
  case Nil
  then show ?case by (simp add: last_of_class_def)
next
  case (snoc nc ncs)
  then show ?case by (cases nc) (simp add: last_of_class_snoc)
qed

lemma last_of_class_absent: "name \<notin> fst ` set ncs \<Longrightarrow> last_of_class name ncs = None"
proof -
  assume "name \<notin> fst ` set ncs"
  then have "filter (\<lambda>nc. fst nc = name) ncs = []"
    by (auto simp: filter_empty_conv)
  then show ?thesis by (simp add: last_of_class_def)
qed

lemma res_loop_last:
  assumes "map (row_detect env m img) (detected_rows res) = map Inr ncs"
  shows "res_loop env m img res Map.empty = Inr (\<lambda>name. last_of_class name ncs)"
  using res_loop_rows [OF assms, of Map.empty] by (simp add: map_of_rev_last [abs_def])

lemma trunc_toward_zero:
  "\<bar>of_int (trunc x)\<bar> \<le> \<bar>x\<bar> \<and> \<bar>x - of_int (trunc x)\<bar> < 1"
  unfolding trunc_def by (auto; linarith)

lemma trunc_unique:
  "\<bar>of_int n\<bar> \<le> \<bar>x\<bar> \<Longrightarrow> \<bar>x - of_int n\<bar> < 1 \<Longrightarrow> n = trunc x"
  unfolding trunc_def by (auto; linarith)

lemma row_detect_converted:
  assumes "py_int (row_cls row) = Inr cls"
    and "model_names env m cls = Some name"
    and "py_int (row_x1 row) = Inr x1"
    and "py_int (row_y1 row) = Inr y1"
    and "py_int (row_x2 row) = Inr x2"
    and "py_int (row_y2 row) = Inr y2"
  shows "row_detect env m img row =
           (case image_crop env img (x1, y1, x2, y2) of
              Inl e \<Rightarrow> Inl e
            | Inr cropped \<Rightarrow> Inr (name, cropped))"
  using assms by (simp add: row_detect_def detect_box_def)

lemma res_loop_single:
  "res_loop env m img [Some [row]] dets =
     (case row_detect env m img row of
        Inl e \<Rightarrow> Inl e
      | Inr (name, cropped) \<Rightarrow> Inr (dets(name \<mapsto> cropped)))"
  by (simp add: boxes_truthy_def boxes_cls_def boxes_xyxy_def row_detect_def
      split: sum.splits prod.splits)

subsection \<open>The result dictionaries\<close>

lemma build_result_outlet:
  "build_result ''outlet_copy'' dets =
     Inr (PDict [(''type'', PStr ''outlet_copy''),
                 (''data'', PDict [(''outlet_id'', dict_get dets ''outlet_id'')])])"
  by (simp add: build_result_def)

lemma build_result_partner:
  "build_result ''partner_copy'' dets =
     Inr (PDict [(''type'', PStr ''partner_copy''),
                 (''data'', PDict
                    [(''partner_1'', PDict (map (\<lambda>k. (k, dict_get dets k)) partner_1_fields)),
                     (''partner_2'', PDict (map (\<lambda>k. (k, dict_get dets k)) partner_2_fields))])])"
  by (simp add: build_result_def partner_1_fields_def partner_2_fields_def)

lemma build_result_cases:
  assumes "build_result key dets = Inr r"
  shows "key = ''outlet_copy'' \<or> key = ''partner_copy''"
  using assms by (auto simp: build_result_def split: if_splits)

lemma outlet_result_schema:
  "outlet_schema (PDict [(''type'', PStr ''outlet_copy''), (''data'', PDict [(''outlet_id'', v)])])"
  by (simp add: outlet_schema_def keys_def getitem_def)

lemma partner_result_schema:
  "partner_schema (PDict [(''type'', PStr ''partner_copy''),
     (''data'', PDict [(''partner_1'', PDict (map (\<lambda>k. (k, f k)) partner_1_fields)),
                       (''partner_2'', PDict (map (\<lambda>k. (k, g k)) partner_2_fields))])])"
  by (simp add: partner_schema_def keys_def getitem_def comp_def)

lemma schemas_exclusive: "outlet_schema r \<Longrightarrow> \<not> partner_schema r"
  by (auto simp: outlet_schema_def partner_schema_def)

lemma process_item_Inr_built:
  assumes "process_item env m d = Inr r"
  shows "\<exists>key path rest dets. d = (key, path) # rest \<and> build_result key dets = Inr r"
  using assms by (auto simp: process_item_def split: list.splits sum.splits)

lemma getpath_outlet_field:
  assumes "build_result ''outlet_copy'' dets = Inr r"
  shows "getpath r [''data'', ''outlet_id''] = Some (dict_get dets ''outlet_id'')"
  using assms by (auto simp: build_result_def getitem_def)

lemma getpath_partner_1_field:
  assumes "k \<in> set partner_1_fields" and "build_result ''partner_copy'' dets = Inr r"
  shows "getpath r [''data'', ''partner_1'', k] = Some (dict_get dets k)"
  using assms by (auto simp: build_result_def partner_1_fields_def getitem_def)

lemma getpath_partner_2_field:
  assumes "k \<in> set partner_2_fields" and "build_result ''partner_copy'' dets = Inr r"
  shows "getpath r [''data'', ''partner_2'', k] = Some (dict_get dets k)"
  using assms by (auto simp: build_result_def partner_2_fields_def getitem_def)

lemma build_result_outlet_schema:
  "\<exists>r. build_result ''outlet_copy'' dets = Inr r \<and> outlet_schema r \<and> \<not> partner_schema r"
  using outlet_result_schema schemas_exclusive by (fastforce simp: build_result_outlet)

lemma build_result_partner_schema:
  "\<exists>r. build_result ''partner_copy'' dets = Inr r \<and> partner_schema r \<and> \<not> outlet_schema r"
  using partner_result_schema schemas_exclusive by (fastforce simp: build_result_partner)

subsection \<open>Libraries that agree\<close>

lemma detect_box_cong:
  assumes "model_names env1 m = model_names env2 m" and "image_crop env1 img = image_crop env2 img"
  shows "detect_box env1 m img class_id coords = detect_box env2 m img class_id coords"
  using assms by (simp add: detect_box_def split: sum.splits option.splits prod.splits)

lemma boxes_loop_cong:
  assumes "model_names env1 m = model_names env2 m" and "image_crop env1 img = image_crop env2 img"
  shows "boxes_loop env1 m img class_ids xyxy is dets = boxes_loop env2 m img class_ids xyxy is dets"
proof (induction "is" arbitrary: dets)
  case Nil
  show ?case by simp
next
  case (Cons i "is")
  have same: "detect_box env1 m img (class_ids ! i) (xyxy ! i) =
      detect_box env2 m img (class_ids ! i) (xyxy ! i)"
    using assms by (rule detect_box_cong)
  show ?case
  proof (cases "detect_box env2 m img (class_ids ! i) (xyxy ! i)")
    case (Inl e)
    with same show ?thesis by simp
  next
    case (Inr nc)
    obtain name cropped where nc: "nc = (name, cropped)" by (cases nc)
    have "boxes_loop env1 m img class_ids xyxy (i # is) dets =
        boxes_loop env1 m img class_ids xyxy is (dets(name \<mapsto> cropped))"
      using Inr same nc by simp
    also have "\<dots> = boxes_loop env2 m img class_ids xyxy is (dets(name \<mapsto> cropped))"
      by (rule Cons.IH)
    also have "\<dots> = boxes_loop env2 m img class_ids xyxy (i # is) dets"
      using Inr nc by simp
    finally show ?thesis .
  qed
qed

lemma res_loop_cong:
  assumes "model_names env1 m = model_names env2 m" and "image_crop env1 img = image_crop env2 img"
  shows "res_loop env1 m img res dets = res_loop env2 m img res dets"
proof (induction res arbitrary: dets)
  case Nil
  show ?case by simp
next
  case (Cons r rs)
  show ?case
    using Cons.IH boxes_loop_cong [OF assms]
    by (simp add: Let_def split: sum.splits)
qed

lemma images_loop_cong:
  assumes "\<forall>d \<in> set images. process_item env1 m d = process_item env2 m d"
  shows "images_loop env1 m images acc = images_loop env2 m images acc"
  using assms by (induction images arbitrary: acc) (simp_all split: sum.splits)

section \<open>Order and length of the results\<close>

text \<open>
  Claim C2, as the code has it. The call returns a list exactly when the model loads
  and every item is processed without raising; the list then has one result per item,
  and the result at index \<open>i\<close> is the result of the item at index \<open>i\<close>. When an
  item raises, no list is returned.
\<close>

theorem results_index_aligned:
  "extract_objects_from_images env images = Inr rs \<longleftrightarrow>
     (\<exists>m. yolo_load env model_path = Inr m \<and> length rs = length images \<and>
          (\<forall>i < length images. process_item env m (images ! i) = Inr (rs ! i)))"
  by (cases "yolo_load env model_path")
    (simp_all add: extract_objects_from_images_def images_loop_Inr_iff)

theorem results_index_aligned_witness:
  "extract_objects_from_images sample_env
     [[(''outlet_copy'', ''A.jpg'')], [(''partner_copy'', ''B.jpg'')]] =
   Inr [PDict [(''type'', PStr ''outlet_copy''),
               (''data'', PDict [(''outlet_id'', PImage (sample_image ''A.jpg'', (10, 10, 50, 50)))])],
        PDict [(''type'', PStr ''partner_copy''),
               (''data'', PDict
                  [(''partner_1'', PDict
                      [(''name_1'', PNone), (''partner_code_1'', PNone), (''age_1'', PNone),
                       (''date_1'', PNone), (''sign_1'', PNone), (''cheek_mark_1'', PNone),
                       (''phn_number_1'', PNone)]),
                   (''partner_2'', PDict
                      [(''name'', PNone), (''partner_code'', PNone), (''age'', PNone),
                       (''date'', PNone), (''sign'', PNone), (''cheek_mark'', PNone),
                       (''phn_number'', PNone)])])]]"
  by (rule iffD2 [OF results_index_aligned])
    (simp add: sample_item_A sample_item_none nth_Cons less_Suc_eq split: nat.splits)

text \<open>
  The claim as stated fails: a batch of two items whose second image makes the detector
  raise returns no list at all, instead of two records.
\<close>

theorem results_index_aligned_counterexample:
  "extract_objects_from_images sample_env
     [[(''outlet_copy'', ''A.jpg'')], [(''outlet_copy'', ''corrupt.jpg'')]] =
   Inl (Raised ''RuntimeError'')"
  by (simp add: extract_objects_from_images_def sample_item_A sample_item_corrupt)

section \<open>Failures of single items\<close>

text \<open>
  Claim C1, as the code has it. The function has no exception handler, so the failure of
  one item is not turned into an error record: it leaves the call, and no results are
  returned. Let the model load, let every item before index \<open>i\<close> be processed without
  raising, and let the item at index \<open>i\<close> start with the entry \<open>(key, path)\<close>. Then the
  call raises \<open>e\<close> whenever processing that item raises \<open>e\<close>; in particular when opening
  the image raises \<open>e\<close>, when the detector raises \<open>e\<close> on the opened image, and, with the
  ValueError of line 73, when the key is neither \<open>outlet_copy\<close> nor \<open>partner_copy\<close>.
\<close>

theorem item_failure_aborts_batch:
  assumes "yolo_load env model_path = Inr m"
    and "i < length images"
    and "\<forall>j < i. \<exists>r. process_item env m (images ! j) = Inr r"
    and "images ! i = (key, path) # rest"
  shows "(process_item env m (images ! i) = Inl e \<longrightarrow>
            extract_objects_from_images env images = Inl e) \<and>
         (image_open env path = Inl e \<longrightarrow>
            extract_objects_from_images env images = Inl e) \<and>
         (image_open env path = Inr img \<and> model_call env m img 0.5 0.45 = Inl e \<longrightarrow>
            extract_objects_from_images env images = Inl e) \<and>
         (image_open env path = Inr img \<and> model_call env m img 0.5 0.45 = Inr res \<and>
          res_loop env m img res Map.empty = Inr dets \<and>
          key \<noteq> ''outlet_copy'' \<and> key \<noteq> ''partner_copy'' \<longrightarrow>
            extract_objects_from_images env images =
              Inl (ValueError (''Unknown image type: '' @ key)))"
proof (intro conjI impI)
  assume "process_item env m (images ! i) = Inl e"
  with assms show "extract_objects_from_images env images = Inl e"
    by (simp add: extract_first_failure)
next
  assume "image_open env path = Inl e"
  then have "process_item env m (images ! i) = Inl e"
    using assms(4) by (simp add: process_item_open_fails)
  with assms show "extract_objects_from_images env images = Inl e"
    by (simp add: extract_first_failure)
next
  assume "image_open env path = Inr img \<and> model_call env m img 0.5 0.45 = Inl e"
  then have "process_item env m (images ! i) = Inl e"
    using assms(4) by (simp add: process_item_call_fails)
  with assms show "extract_objects_from_images env images = Inl e"
    by (simp add: extract_first_failure)
next
  assume a: "image_open env path = Inr img \<and> model_call env m img 0.5 0.45 = Inr res \<and>
    res_loop env m img res Map.empty = Inr dets \<and>
    key \<noteq> ''outlet_copy'' \<and> key \<noteq> ''partner_copy''"
  then have "process_item env m (images ! i) = build_result key dets"
    using assms(4) by (simp add: process_item_built)
  with a have "process_item env m (images ! i) =
      Inl (ValueError (''Unknown image type: '' @ key))"
    by (simp add: build_result_unknown)
  with assms show "extract_objects_from_images env images =
      Inl (ValueError (''Unknown image type: '' @ key))"
    by (simp add: extract_first_failure)
qed

theorem item_failure_aborts_batch_witness:
  "extract_objects_from_images sample_env
     [[(''outlet_copy'', ''A.jpg'')], [(''partner_copy'', ''alien.jpg'')],
      [(''partner_copy'', ''B.jpg'')]] = Inl (KeyError 7) \<and>
   extract_objects_from_images sample_env
     [[(''partner_copy'', ''missing.jpg'')], [(''outlet_copy'', ''A.jpg'')]] =
     Inl (Raised ''FileNotFoundError'') \<and>
   extract_objects_from_images sample_env
     [[(''outlet_copy'', ''A.jpg'')], [(''partner_copy'', ''corrupt.jpg'')],
      [(''partner_copy'', ''B.jpg'')]] = Inl (Raised ''RuntimeError'') \<and>
   extract_objects_from_images sample_env
     [[(''outlet_copy'', ''A.jpg'')], [(''outlet_copy'', ''A.jpg'')],
      [(''invoice'', ''B.jpg'')]] = Inl (ValueError ''Unknown image type: invoice'')"
proof -
  have load: "yolo_load sample_env model_path = Inr ()"
    by simp
  have open_B: "image_open sample_env ''B.jpg'' = Inr (sample_image ''B.jpg'')"
    by (simp add: sample_env_def sample_open_def)
  have open_corrupt: "image_open sample_env ''corrupt.jpg'' = Inr (sample_image ''corrupt.jpg'')"
    by (simp add: sample_env_def sample_open_def)
  have open_missing: "image_open sample_env ''missing.jpg'' = Inl (Raised ''FileNotFoundError'')"
    by (simp add: sample_env_def sample_open_def)
  have call_B: "model_call sample_env () (sample_image ''B.jpg'') 0.5 0.45 = Inr [Some []]"
    by (simp add: sample_env_def sample_call_def sample_image_def)
  have call_corrupt:
    "model_call sample_env () (sample_image ''corrupt.jpg'') 0.5 0.45 = Inl (Raised ''RuntimeError'')"
    by (simp add: sample_env_def sample_call_def sample_image_def)
  have loop_B: "res_loop sample_env () (sample_image ''B.jpg'') [Some []] Map.empty = Inr Map.empty"
    by (simp add: boxes_truthy_def)
  have first: "\<forall>j < (1::nat). \<exists>r. process_item sample_env ()
      (([(''outlet_copy'', ''A.jpg'')] # ds) ! j) = Inr r" for ds
    by (simp add: sample_item_A)
  have first_two: "\<forall>j < (2::nat). \<exists>r. process_item sample_env ()
      (([(''outlet_copy'', ''A.jpg'')] # [(''outlet_copy'', ''A.jpg'')] # ds) ! j) = Inr r" for ds
    by (auto simp: numeral_2_eq_2 less_Suc_eq sample_item_A)
  have "extract_objects_from_images sample_env
     [[(''outlet_copy'', ''A.jpg'')], [(''partner_copy'', ''alien.jpg'')],
      [(''partner_copy'', ''B.jpg'')]] = Inl (KeyError 7)"
    using item_failure_aborts_batch [where env = sample_env and m = "()" and i = 1
        and images = "[[(''outlet_copy'', ''A.jpg'')], [(''partner_copy'', ''alien.jpg'')],
          [(''partner_copy'', ''B.jpg'')]]"
        and key = "''partner_copy''" and path = "''alien.jpg''" and rest = "[]"
        and e = "KeyError 7", OF load _ first]
    by (simp add: sample_item_alien)
  moreover have "extract_objects_from_images sample_env
     [[(''partner_copy'', ''missing.jpg'')], [(''outlet_copy'', ''A.jpg'')]] =
     Inl (Raised ''FileNotFoundError'')"
    using item_failure_aborts_batch [where env = sample_env and m = "()" and i = 0
        and images = "[[(''partner_copy'', ''missing.jpg'')], [(''outlet_copy'', ''A.jpg'')]]"
        and key = "''partner_copy''" and path = "''missing.jpg''" and rest = "[]"
        and e = "Raised ''FileNotFoundError''", OF load] open_missing
    by simp
  moreover have "extract_objects_from_images sample_env
     [[(''outlet_copy'', ''A.jpg'')], [(''partner_copy'', ''corrupt.jpg'')],
      [(''partner_copy'', ''B.jpg'')]] = Inl (Raised ''RuntimeError'')"
    using item_failure_aborts_batch [where env = sample_env and m = "()" and i = 1
        and images = "[[(''outlet_copy'', ''A.jpg'')], [(''partner_copy'', ''corrupt.jpg'')],
          [(''partner_copy'', ''B.jpg'')]]"
        and key = "''partner_copy''" and path = "''corrupt.jpg''" and rest = "[]"
        and e = "Raised ''RuntimeError''" and img = "sample_image ''corrupt.jpg''",
        OF load _ first] open_corrupt call_corrupt
    by simp
  moreover have "extract_objects_from_images sample_env
     [[(''outlet_copy'', ''A.jpg'')], [(''outlet_copy'', ''A.jpg'')],
      [(''invoice'', ''B.jpg'')]] = Inl (ValueError ''Unknown image type: invoice'')"
    using item_failure_aborts_batch [where env = sample_env and m = "()" and i = 2
        and images = "[[(''outlet_copy'', ''A.jpg'')], [(''outlet_copy'', ''A.jpg'')],
          [(''invoice'', ''B.jpg'')]]"
        and key = "''invoice''" and path = "''B.jpg''" and rest = "[]"
        and img = "sample_image ''B.jpg''" and res = "[Some []]" and dets = Map.empty,
        OF load _ first_two] open_B call_B loop_B
    by simp
  ultimately show ?thesis by blast
qed

text \<open>
  The claim as stated fails on the specification's own scenario: in a batch of three
  items whose second image does not exist, the call raises the loader's exception; it
  does not return three results with an error record in the second place.
\<close>

theorem item_failure_aborts_batch_counterexample:
  "extract_objects_from_images sample_env
     [[(''outlet_copy'', ''A.jpg'')], [(''outlet_copy'', ''missing.jpg'')],
      [(''partner_copy'', ''B.jpg'')]] = Inl (Raised ''FileNotFoundError'')"
  by (simp add: extract_objects_from_images_def sample_item_A sample_item_missing)

section \<open>Unknown document types\<close>

text \<open>
  Claim C5, as the code has it. For a key that is neither \<open>outlet_copy\<close> nor
  \<open>partner_copy\<close> the last step of the item raises
  \<^verbatim>\<open>ValueError("Unknown image type: <key>")\<close>, whatever was detected. The step is
  reached after the image has been opened and the detections have been collected, and
  the exception is not caught: when the model loads and the items before this one are
  processed without raising, it is the outcome of the whole call.
\<close>

theorem unknown_type_raises_value_error:
  assumes "key \<noteq> ''outlet_copy''" and "key \<noteq> ''partner_copy''"
  shows "build_result key dets' = Inl (ValueError (''Unknown image type: '' @ key)) \<and>
         (yolo_load env model_path = Inr m \<and> i < length images \<and>
          (\<forall>j < i. \<exists>r. process_item env m (images ! j) = Inr r) \<and>
          images ! i = (key, path) # rest \<and>
          image_open env path = Inr img \<and> model_call env m img 0.5 0.45 = Inr res \<and>
          res_loop env m img res Map.empty = Inr dets \<longrightarrow>
            extract_objects_from_images env images =
              Inl (ValueError (''Unknown image type: '' @ key)))"
proof (intro conjI impI)
  show "build_result key dets' = Inl (ValueError (''Unknown image type: '' @ key))"
    using assms by (rule build_result_unknown)
next
  assume a: "yolo_load env model_path = Inr m \<and> i < length images \<and>
    (\<forall>j < i. \<exists>r. process_item env m (images ! j) = Inr r) \<and>
    images ! i = (key, path) # rest \<and>
    image_open env path = Inr img \<and> model_call env m img 0.5 0.45 = Inr res \<and>
    res_loop env m img res Map.empty = Inr dets"
  then have "process_item env m (images ! i) = build_result key dets"
    by (simp add: process_item_built)
  then have failed: "process_item env m (images ! i) =
      Inl (ValueError (''Unknown image type: '' @ key))"
    using build_result_unknown [OF assms, of dets] by simp
  from a have "yolo_load env model_path = Inr m" and "i < length images"
    and "\<forall>j < i. \<exists>r. process_item env m (images ! j) = Inr r"
    by blast+
  then show "extract_objects_from_images env images =
      Inl (ValueError (''Unknown image type: '' @ key))"
    using failed by (rule extract_first_failure)
qed

theorem unknown_type_raises_value_error_witness:
  "build_result ''receipt'' (Map.empty :: string \<rightharpoonup> pil_image \<times> box) =
     Inl (ValueError ''Unknown image type: receipt'') \<and>
   extract_objects_from_images sample_env
     [[(''partner_copy'', ''B.jpg'')], [(''receipt'', ''B.jpg'')], [(''outlet_copy'', ''A.jpg'')]] =
     Inl (ValueError ''Unknown image type: receipt'')"
proof -
  have load: "yolo_load sample_env model_path = Inr ()"
    by simp
  have open_B: "image_open sample_env ''B.jpg'' = Inr (sample_image ''B.jpg'')"
    by (simp add: sample_env_def sample_open_def)
  have call_B: "model_call sample_env () (sample_image ''B.jpg'') 0.5 0.45 = Inr [Some []]"
    by (simp add: sample_env_def sample_call_def sample_image_def)
  have loop_B: "res_loop sample_env () (sample_image ''B.jpg'') [Some []] Map.empty = Inr Map.empty"
    by (simp add: boxes_truthy_def)
  have first: "\<forall>j < (1::nat). \<exists>r. process_item sample_env ()
      ([[(''partner_copy'', ''B.jpg'')], [(''receipt'', ''B.jpg'')],
        [(''outlet_copy'', ''A.jpg'')]] ! j) = Inr r"
    by (simp add: sample_item_none)
  have key: "''receipt'' \<noteq> ''outlet_copy''" "''receipt'' \<noteq> ''partner_copy''"
    by simp_all
  show ?thesis
    using unknown_type_raises_value_error [OF key, where env = sample_env and m = "()"
        and i = 1 and path = "''B.jpg''" and rest = "[]"
        and images = "[[(''partner_copy'', ''B.jpg'')], [(''receipt'', ''B.jpg'')],
          [(''outlet_copy'', ''A.jpg'')]]"
        and img = "sample_image ''B.jpg''" and res = "[Some []]" and dets = Map.empty
        and dets' = "Map.empty :: string \<rightharpoonup> pil_image \<times> box"]
      load open_B call_B loop_B first
    by simp
qed

text \<open>
  The claim as stated fails: an unknown key in the first item ends the whole call with
  the ValueError, and the valid second item gets no record.
\<close>

theorem unknown_type_raises_value_error_counterexample:
  "extract_objects_from_images sample_env
     [[(''receipt'', ''A.jpg'')], [(''outlet_copy'', ''A.jpg'')]] =
   Inl (ValueError ''Unknown image type: receipt'')"
  by (simp add: extract_objects_from_images_def sample_item_unknown)

section \<open>Items with several entries or none\<close>

text \<open>
  Claim C9. Only the first entry of an item is read: processing an item gives the same
  outcome as processing its first entry alone, and so does the whole call when every
  item is cut down to its first entry. An empty item raises IndexError: it does so on
  its own; a batch that contains one never returns a result list; and the call raises
  that IndexError when the model loads and the items before the empty one are
  processed without raising.
\<close>

theorem only_first_entry_read:
  "process_item env m (entry # rest) = process_item env m [entry] \<and>
   extract_objects_from_images env (map (take 1) images) =
     extract_objects_from_images env images \<and>
   process_item env m [] = Inl IndexError \<and>
   ([] \<in> set images \<longrightarrow> (\<forall>rs. extract_objects_from_images env images \<noteq> Inr rs)) \<and>
   (yolo_load env model_path = Inr m \<and> i < length images \<and> images ! i = [] \<and>
    (\<forall>j < i. \<exists>r. process_item env m (images ! j) = Inr r) \<longrightarrow>
      extract_objects_from_images env images = Inl IndexError)"
proof (intro conjI impI allI)
  show "process_item env m (entry # rest) = process_item env m [entry]"
    by (rule process_item_first_entry)
next
  show "extract_objects_from_images env (map (take 1) images) =
      extract_objects_from_images env images"
    using images_loop_take_1 [of env _ images "[]"]
    by (simp add: extract_objects_from_images_def split: sum.splits)
next
  show "process_item env m [] = Inl IndexError"
    by (simp add: process_item_def)
next
  fix rs
  assume "[] \<in> set images"
  then show "extract_objects_from_images env images \<noteq> Inr rs"
    by (rule extract_no_list_with_empty_item)
next
  assume a: "yolo_load env model_path = Inr m \<and> i < length images \<and> images ! i = [] \<and>
    (\<forall>j < i. \<exists>r. process_item env m (images ! j) = Inr r)"
  then have failed: "process_item env m (images ! i) = Inl IndexError"
    by (simp add: process_item_def)
  from a have "yolo_load env model_path = Inr m" and "i < length images"
    and "\<forall>j < i. \<exists>r. process_item env m (images ! j) = Inr r"
    by blast+
  then show "extract_objects_from_images env images = Inl IndexError"
    using failed by (rule extract_first_failure)
qed

theorem only_first_entry_read_witness:
  "process_item sample_env () [(''outlet_copy'', ''A.jpg''), (''partner_copy'', ''missing.jpg'')] =
     process_item sample_env () [(''outlet_copy'', ''A.jpg'')] \<and>
   extract_objects_from_images sample_env
     [[(''outlet_copy'', ''A.jpg'')], [], [(''partner_copy'', ''B.jpg'')]] = Inl IndexError \<and>
   extract_objects_from_images sample_env [[(''outlet_copy'', ''missing.jpg'')], []] \<noteq> Inr []"
proof -
  have load: "yolo_load sample_env model_path = Inr ()"
    by simp
  have first: "\<forall>j < (1::nat). \<exists>r. process_item sample_env ()
      ([[(''outlet_copy'', ''A.jpg'')], [], [(''partner_copy'', ''B.jpg'')]] ! j) = Inr r"
    by (simp add: sample_item_A)
  have "process_item sample_env () [(''outlet_copy'', ''A.jpg''), (''partner_copy'', ''missing.jpg'')] =
     process_item sample_env () [(''outlet_copy'', ''A.jpg'')]"
    using only_first_entry_read [where env = sample_env and m = "()"
        and entry = "(''outlet_copy'', ''A.jpg'')" and rest = "[(''partner_copy'', ''missing.jpg'')]"]
    by blast
  moreover have "extract_objects_from_images sample_env
     [[(''outlet_copy'', ''A.jpg'')], [], [(''partner_copy'', ''B.jpg'')]] = Inl IndexError"
    using only_first_entry_read [where env = sample_env and m = "()" and i = 1
        and images = "[[(''outlet_copy'', ''A.jpg'')], [], [(''partner_copy'', ''B.jpg'')]]"]
      load first
    by simp
  moreover have "extract_objects_from_images sample_env
      [[(''outlet_copy'', ''missing.jpg'')], []] \<noteq> Inr []"
    using only_first_entry_read [where env = sample_env
        and images = "[[(''outlet_copy'', ''missing.jpg'')], []]"]
    by simp
  ultimately show ?thesis by blast
qed

section \<open>Several detections of one class\<close>

text \<open>
  Claim C3. Take the detections of an image in the detector's output order. When each of
  them is converted and cropped without raising, giving the (class name, crop) pairs
  \<open>ncs\<close>, the detection loop returns the mapping that holds, under each class name, the
  crop of the last detection of that class in that order, and nothing for a class that
  was not detected. Whenever the loop returns a mapping at all, it is that one. In
  particular two detections of the same class leave the crop of the second; the first
  is dropped without any signal.
\<close>

theorem last_detection_of_class_wins:
  "(map (row_detect env m img) (detected_rows res) = map Inr ncs \<longrightarrow>
      res_loop env m img res Map.empty = Inr (\<lambda>name. last_of_class name ncs)) \<and>
   (res_loop env m img res Map.empty = Inr dets \<longrightarrow>
      (\<exists>ncs'. map (row_detect env m img) (detected_rows res) = map Inr ncs' \<and>
             (\<forall>name. dets name = last_of_class name ncs'))) \<and>
   (row_detect env m img row1 = Inr (a, c1) \<and> row_detect env m img row2 = Inr (a, c2) \<longrightarrow>
      res_loop env m img [Some [row1, row2]] Map.empty = Inr [a \<mapsto> c2])"
proof (intro conjI impI)
  assume "map (row_detect env m img) (detected_rows res) = map Inr ncs"
  then show "res_loop env m img res Map.empty = Inr (\<lambda>name. last_of_class name ncs)"
    by (rule res_loop_last)
next
  assume ret: "res_loop env m img res Map.empty = Inr dets"
  from res_loop_Inr_rows [OF ret]
  obtain ncs' where rows: "map (row_detect env m img) (detected_rows res) = map Inr ncs'" ..
  then have "res_loop env m img res Map.empty = Inr (\<lambda>name. last_of_class name ncs')"
    by (rule res_loop_last)
  with ret have "dets = (\<lambda>name. last_of_class name ncs')" by simp
  with rows show "\<exists>ncs'. map (row_detect env m img) (detected_rows res) = map Inr ncs' \<and>
      (\<forall>name. dets name = last_of_class name ncs')"
    by blast
next
  assume "row_detect env m img row1 = Inr (a, c1) \<and> row_detect env m img row2 = Inr (a, c2)"
  then have "map (row_detect env m img) (detected_rows [Some [row1, row2]]) =
      map Inr [(a, c1), (a, c2)]"
    by (simp add: detected_rows_def)
  then have "res_loop env m img [Some [row1, row2]] Map.empty =
      Inr (\<lambda>name. last_of_class name [(a, c1), (a, c2)])"
    by (rule res_loop_last)
  moreover have "(\<lambda>name. last_of_class name [(a, c1), (a, c2)]) = [a \<mapsto> c2]"
    by (auto simp: last_of_class_def fun_eq_iff)
  ultimately show "res_loop env m img [Some [row1, row2]] Map.empty = Inr [a \<mapsto> c2]"
    by simp
qed

theorem last_detection_of_class_wins_witness:
  "res_loop sample_env () (sample_image ''dup.jpg'')
     [Some [mk_row 10 10 50 50 0.9 1, mk_row 20 60 90 80 0.6 1]] Map.empty =
   Inr [''name_1'' \<mapsto> (sample_image ''dup.jpg'', (20, 60, 90, 80))] \<and>
   res_loop sample_env () (sample_image ''dup.jpg'')
     [Some [mk_row 10 10 50 50 0.9 1, mk_row 20 60 90 80 0.6 1]] Map.empty =
   Inr (\<lambda>name. last_of_class name
          [(''name_1'', (sample_image ''dup.jpg'', (10, 10, 50, 50))),
           (''name_1'', (sample_image ''dup.jpg'', (20, 60, 90, 80)))]) \<and>
   (\<exists>ncs'. map (row_detect sample_env () (sample_image ''dup.jpg''))
             (detected_rows [Some [mk_row 10 10 50 50 0.9 1, mk_row 20 60 90 80 0.6 1]]) =
           map Inr ncs' \<and>
           last_of_class ''name_1'' ncs' = Some (sample_image ''dup.jpg'', (20, 60, 90, 80)))"
proof -
  have each: "row_detect sample_env () (sample_image ''dup.jpg'') (mk_row 10 10 50 50 0.9 1) =
      Inr (''name_1'', (sample_image ''dup.jpg'', (10, 10, 50, 50))) \<and>
    row_detect sample_env () (sample_image ''dup.jpg'') (mk_row 20 60 90 80 0.6 1) =
      Inr (''name_1'', (sample_image ''dup.jpg'', (20, 60, 90, 80)))"
    by (simp add: row_detect_def detect_box_def mk_row_def sample_env_def sample_names_def
        trunc_def)
  then have rows: "map (row_detect sample_env () (sample_image ''dup.jpg''))
      (detected_rows [Some [mk_row 10 10 50 50 0.9 1, mk_row 20 60 90 80 0.6 1]]) =
    map Inr [(''name_1'', (sample_image ''dup.jpg'', (10, 10, 50, 50))),
             (''name_1'', (sample_image ''dup.jpg'', (20, 60, 90, 80)))]"
    by (simp add: detected_rows_def)
  have second: "res_loop sample_env () (sample_image ''dup.jpg'')
     [Some [mk_row 10 10 50 50 0.9 1, mk_row 20 60 90 80 0.6 1]] Map.empty =
   Inr [''name_1'' \<mapsto> (sample_image ''dup.jpg'', (20, 60, 90, 80))]"
    using last_detection_of_class_wins [THEN conjunct2, THEN conjunct2, rule_format, OF each] .
  have all: "res_loop sample_env () (sample_image ''dup.jpg'')
     [Some [mk_row 10 10 50 50 0.9 1, mk_row 20 60 90 80 0.6 1]] Map.empty =
   Inr (\<lambda>name. last_of_class name
          [(''name_1'', (sample_image ''dup.jpg'', (10, 10, 50, 50))),
           (''name_1'', (sample_image ''dup.jpg'', (20, 60, 90, 80)))])"
    using last_detection_of_class_wins [THEN conjunct1, rule_format, OF rows] .
  from last_detection_of_class_wins [THEN conjunct2, THEN conjunct1, rule_format, OF second]
  obtain ncs' where "map (row_detect sample_env () (sample_image ''dup.jpg''))
        (detected_rows [Some [mk_row 10 10 50 50 0.9 1, mk_row 20 60 90 80 0.6 1]]) =
      map Inr ncs'"
    and "\<forall>name. [''name_1'' \<mapsto> (sample_image ''dup.jpg'', (20 :: int, 60 :: int, 90 :: int, 80 :: int))] name =
      last_of_class name ncs'"
    by blast
  then have "\<exists>ncs'. map (row_detect sample_env () (sample_image ''dup.jpg''))
             (detected_rows [Some [mk_row 10 10 50 50 0.9 1, mk_row 20 60 90 80 0.6 1]]) =
           map Inr ncs' \<and>
           last_of_class ''name_1'' ncs' = Some (sample_image ''dup.jpg'', (20, 60, 90, 80))"
    by (metis fun_upd_same)
  with second all show ?thesis by blast
qed

section \<open>Conversion of the coordinates\<close>

text \<open>
  Claim C10. \<^verbatim>\<open>int\<close> of a finite float is its truncation toward zero: the integer
  that is no larger in absolute value and less than one away, and the only such
  integer. For a detection with finite class id and coordinates whose class the model
  knows, the crop that is taken is the library's crop at the four truncated
  coordinates; the fractional box never reaches \<^verbatim>\<open>img.crop\<close>.
\<close>

theorem coordinates_truncated_toward_zero:
  "py_int (Finite x) = Inr (trunc x) \<and>
   \<bar>of_int (trunc x)\<bar> \<le> \<bar>x\<bar> \<and> \<bar>x - of_int (trunc x)\<bar> < 1 \<and>
   (\<bar>of_int n\<bar> \<le> \<bar>x\<bar> \<and> \<bar>x - of_int n\<bar> < 1 \<longrightarrow> n = trunc x) \<and>
   (model_names env m (trunc k) = Some name \<longrightarrow>
      detect_box env m img (Finite k) (Finite a, Finite b, Finite c, Finite d) =
        (case image_crop env img (trunc a, trunc b, trunc c, trunc d) of
           Inl e \<Rightarrow> Inl e
         | Inr cropped \<Rightarrow> Inr (name, cropped)))"
  using trunc_toward_zero [of x] trunc_unique [of n x]
  by (simp add: detect_box_def)

theorem coordinates_truncated_toward_zero_witness:
  "py_int (Finite (-3.7)) = Inr (-3) \<and>
   trunc 60.99 = 60 \<and>
   detect_box sample_env () (sample_image ''frac.jpg'') (Finite 0)
     (Finite 10.7, Finite (-0.5), Finite 50.9, Finite 60.5) =
   Inr (''outlet_id'', (sample_image ''frac.jpg'', (10, 0, 50, 60)))"
proof -
  have t: "trunc (-3.7) = -3" "trunc 0 = 0" "trunc 10.7 = 10" "trunc (-0.5) = 0"
    "trunc 50.9 = 50" "trunc 60.5 = 60"
    by (simp_all add: trunc_def ceiling_def)
  have "py_int (Finite (-3.7)) = Inr (-3)"
    using coordinates_truncated_toward_zero [THEN conjunct1, of "-3.7"]
    by (simp add: t)
  moreover have "\<bar>of_int (60 :: int)\<bar> \<le> \<bar>60.99 :: real\<bar> \<and> \<bar>(60.99 :: real) - of_int 60\<bar> < 1"
    by simp
  then have "trunc 60.99 = 60"
    using coordinates_truncated_toward_zero [THEN conjunct2, THEN conjunct2, THEN conjunct2,
        THEN conjunct1, rule_format, of 60 "60.99"]
    by simp
  moreover have "model_names sample_env () (trunc 0) = Some ''outlet_id''"
    by (simp add: t sample_env_def sample_names_def)
  then have "detect_box sample_env () (sample_image ''frac.jpg'') (Finite 0)
     (Finite 10.7, Finite (-0.5), Finite 50.9, Finite 60.5) =
   Inr (''outlet_id'', (sample_image ''frac.jpg'', (10, 0, 50, 60)))"
    using coordinates_truncated_toward_zero [where env = sample_env and m = "()" and k = 0
        and name = "''outlet_id''" and img = "sample_image ''frac.jpg''"
        and a = "10.7" and b = "-0.5" and c = "50.9" and d = "60.5" and x = 0 and n = 0]
    by (simp add: trunc_def ceiling_def sample_env_def)
  ultimately show ?thesis by blast
qed

section \<open>The box handed to the image library\<close>

text \<open>
  Claim C6, as the code has it. The function does no clamping and has no case for
  empty boxes. For every image and every detection whose class id and coordinates
  convert, the converted box goes to \<^verbatim>\<open>img.crop\<close> as it is, whatever the size of the
  image: the detection yields the library's crop at that box, and an exception of the
  library is the exception of the detection. For a batch of one \<open>outlet_copy\<close> item with
  one detection of class \<open>outlet_id\<close>, the call returns the record holding that crop, or
  raises what the library raised.
\<close>

theorem crop_box_passed_unclamped:
  assumes "py_int (row_cls row) = Inr cls"
    and "model_names env m cls = Some name"
    and "py_int (row_x1 row) = Inr x1"
    and "py_int (row_y1 row) = Inr y1"
    and "py_int (row_x2 row) = Inr x2"
    and "py_int (row_y2 row) = Inr y2"
  shows "row_detect env m img row =
           (case image_crop env img (x1, y1, x2, y2) of
              Inl e \<Rightarrow> Inl e
            | Inr cropped \<Rightarrow> Inr (name, cropped)) \<and>
         (yolo_load env model_path = Inr m \<and> image_open env path = Inr img \<and>
          model_call env m img 0.5 0.45 = Inr [Some [row]] \<and> name = ''outlet_id'' \<longrightarrow>
            extract_objects_from_images env [[(''outlet_copy'', path)]] =
              (case image_crop env img (x1, y1, x2, y2) of
                 Inl e \<Rightarrow> Inl e
               | Inr cropped \<Rightarrow>
                   Inr [PDict [(''type'', PStr ''outlet_copy''),
                               (''data'', PDict [(''outlet_id'', PImage cropped)])]]))"
proof (intro conjI impI)
  show det: "row_detect env m img row =
           (case image_crop env img (x1, y1, x2, y2) of
              Inl e \<Rightarrow> Inl e
            | Inr cropped \<Rightarrow> Inr (name, cropped))"
    using assms by (rule row_detect_converted)
  assume a: "yolo_load env model_path = Inr m \<and> image_open env path = Inr img \<and>
    model_call env m img 0.5 0.45 = Inr [Some [row]] \<and> name = ''outlet_id''"
  show "extract_objects_from_images env [[(''outlet_copy'', path)]] =
      (case image_crop env img (x1, y1, x2, y2) of
         Inl e \<Rightarrow> Inl e
       | Inr cropped \<Rightarrow>
           Inr [PDict [(''type'', PStr ''outlet_copy''),
                       (''data'', PDict [(''outlet_id'', PImage cropped)])]])"
  proof (cases "image_crop env img (x1, y1, x2, y2)")
    case (Inl e)
    with det have "res_loop env m img [Some [row]] Map.empty = Inl e"
      by (subst res_loop_single) simp
    with a have "process_item env m [(''outlet_copy'', path)] = Inl e"
      by (simp add: process_item_loop_fails)
    with a Inl show ?thesis
      by (simp add: extract_objects_from_images_def)
  next
    case (Inr cropped)
    with det have "res_loop env m img [Some [row]] Map.empty = Inr [name \<mapsto> cropped]"
      by (subst res_loop_single) simp
    with a have "process_item env m [(''outlet_copy'', path)] =
        build_result ''outlet_copy'' [''outlet_id'' \<mapsto> cropped]"
      by (simp add: process_item_built)
    with a Inr show ?thesis
      by (simp add: extract_objects_from_images_def build_result_def dict_get_def)
  qed
qed

theorem crop_box_passed_unclamped_witness:
  "extract_objects_from_images sample_env [[(''outlet_copy'', ''edge.jpg'')]] =
   Inr [PDict [(''type'', PStr ''outlet_copy''),
               (''data'', PDict [(''outlet_id'',
                  PImage (sample_image ''edge.jpg'', (-5, 90, 40, 130)))])]]"
proof -
  have conv: "py_int (row_cls (mk_row (-5) 90 40 130 0.7 0)) = Inr 0"
    "model_names sample_env () 0 = Some ''outlet_id''"
    "py_int (row_x1 (mk_row (-5) 90 40 130 0.7 0)) = Inr (-5)"
    "py_int (row_y1 (mk_row (-5) 90 40 130 0.7 0)) = Inr 90"
    "py_int (row_x2 (mk_row (-5) 90 40 130 0.7 0)) = Inr 40"
    "py_int (row_y2 (mk_row (-5) 90 40 130 0.7 0)) = Inr 130"
    by (simp_all add: mk_row_def trunc_def sample_env_def sample_names_def)
  have lib: "yolo_load sample_env model_path = Inr ()"
    "image_open sample_env ''edge.jpg'' = Inr (sample_image ''edge.jpg'')"
    "model_call sample_env () (sample_image ''edge.jpg'') 0.5 0.45 =
       Inr [Some [mk_row (-5) 90 40 130 0.7 0]]"
    "image_crop sample_env (sample_image ''edge.jpg'') (-5, 90, 40, 130) =
       Inr (sample_image ''edge.jpg'', (-5, 90, 40, 130))"
    by (simp_all add: sample_env_def sample_open_def sample_call_def sample_image_def)
  show ?thesis
    using crop_box_passed_unclamped [OF conv, where img = "sample_image ''edge.jpg''"
        and path = "''edge.jpg''"] lib
    by simp
qed

text \<open>
  The claim as stated fails. The image of \<open>wide.jpg\<close> is 100 wide and its detection has
  the right edge at 150: the box that reaches \<^verbatim>\<open>img.crop\<close> still has its right edge at
  150, so the record does not hold the crop at the clamped box, whose right edge is 100.
  The detection of \<open>outside.jpg\<close> lies to the right of the image, so the clamped box
  has width zero: the record holds the library's crop at the detector's box, not the
  absent marker.
\<close>

theorem crop_box_passed_unclamped_counterexample:
  "extract_objects_from_images sample_env [[(''outlet_copy'', ''wide.jpg'')]] =
     Inr [PDict [(''type'', PStr ''outlet_copy''),
                 (''data'', PDict [(''outlet_id'',
                    PImage (sample_image ''wide.jpg'', (10, 10, 150, 50)))])]] \<and>
   img_width (sample_image ''wide.jpg'') = 100 \<and>
   spec_clamp_box (img_width (sample_image ''wide.jpg'')) (img_height (sample_image ''wide.jpg''))
     (10, 10, 150, 50) = (10, 10, 100, 50) \<and>
   extract_objects_from_images sample_env [[(''outlet_copy'', ''wide.jpg'')]] \<noteq>
     Inr [PDict [(''type'', PStr ''outlet_copy''),
                 (''data'', PDict [(''outlet_id'',
                    PImage (sample_image ''wide.jpg'',
                      spec_clamp_box (img_width (sample_image ''wide.jpg''))
                        (img_height (sample_image ''wide.jpg'')) (10, 10, 150, 50)))])]] \<and>
   extract_objects_from_images sample_env [[(''outlet_copy'', ''outside.jpg'')]] =
     Inr [PDict [(''type'', PStr ''outlet_copy''),
                 (''data'', PDict [(''outlet_id'',
                    PImage (sample_image ''outside.jpg'', (120, 10, 150, 50)))])]] \<and>
   spec_clamp_box (img_width (sample_image ''outside.jpg''))
     (img_height (sample_image ''outside.jpg'')) (120, 10, 150, 50) = (100, 10, 100, 50) \<and>
   extract_objects_from_images sample_env [[(''outlet_copy'', ''outside.jpg'')]] \<noteq>
     Inr [PDict [(''type'', PStr ''outlet_copy''), (''data'', PDict [(''outlet_id'', PNone)])]]"
  by (simp add: extract_objects_from_images_def process_item_def sample_env_def sample_open_def
      sample_call_def sample_image_def boxes_truthy_def boxes_cls_def boxes_xyxy_def
      detect_box_def mk_row_def sample_names_def trunc_def build_result_def dict_get_def
      spec_clamp_box_def)

section \<open>Fields without a detection\<close>

text \<open>
  Claim C7. Let the image open, the detector return, and every detection be converted
  and cropped without raising, giving the (class name, crop) pairs \<open>ncs\<close>. Then the
  item is processed without raising, for either document type, and every expected field
  is a key of its record: \<open>outlet_id\<close> for an outlet copy, the seven fields of
  \<open>partner_1\<close> and the seven of \<open>partner_2\<close> for a partner copy. The field holds the
  crop stored for its class, and \<^verbatim>\<open>None\<close> (the absent marker) when no detection carries
  the class.
\<close>

theorem absent_class_gives_none:
  assumes "image_open env path = Inr img"
    and "model_call env m img 0.5 0.45 = Inr res"
    and "map (row_detect env m img) (detected_rows res) = map Inr ncs"
  shows "(\<exists>r. process_item env m ((''outlet_copy'', path) # rest) = Inr r \<and>
            getpath r [''data'', ''outlet_id''] =
              Some (dict_get (\<lambda>n. last_of_class n ncs) ''outlet_id'') \<and>
            (''outlet_id'' \<notin> fst ` set ncs \<longrightarrow>
               getpath r [''data'', ''outlet_id''] = Some PNone)) \<and>
         (\<exists>r. process_item env m ((''partner_copy'', path) # rest) = Inr r \<and>
            (\<forall>k \<in> set partner_1_fields.
               getpath r [''data'', ''partner_1'', k] =
                 Some (dict_get (\<lambda>n. last_of_class n ncs) k) \<and>
               (k \<notin> fst ` set ncs \<longrightarrow> getpath r [''data'', ''partner_1'', k] = Some PNone)) \<and>
            (\<forall>k \<in> set partner_2_fields.
               getpath r [''data'', ''partner_2'', k] =
                 Some (dict_get (\<lambda>n. last_of_class n ncs) k) \<and>
               (k \<notin> fst ` set ncs \<longrightarrow> getpath r [''data'', ''partner_2'', k] = Some PNone)))"
proof -
  define dets where "dets = (\<lambda>n. last_of_class n ncs)"
  have loop: "res_loop env m img res Map.empty = Inr dets"
    unfolding dets_def using assms(3) by (rule res_loop_last)
  have item: "process_item env m ((key, path) # rest) = build_result key dets" for key
    using assms(1,2) loop by (rule process_item_built)
  have absent: "dict_get dets k = PNone" if "k \<notin> fst ` set ncs" for k
    using that by (simp add: dict_get_def dets_def last_of_class_absent)
  obtain ro where ro: "build_result ''outlet_copy'' dets = Inr ro"
    by (simp add: build_result_outlet)
  obtain rp where rp: "build_result ''partner_copy'' dets = Inr rp"
    by (simp add: build_result_partner)
  have "getpath ro [''data'', ''outlet_id''] = Some (dict_get dets ''outlet_id'')"
    using ro by (rule getpath_outlet_field)
  then have outlet: "\<exists>r. process_item env m ((''outlet_copy'', path) # rest) = Inr r \<and>
      getpath r [''data'', ''outlet_id''] = Some (dict_get dets ''outlet_id'') \<and>
      (''outlet_id'' \<notin> fst ` set ncs \<longrightarrow> getpath r [''data'', ''outlet_id''] = Some PNone)"
    using absent [of "''outlet_id''"] ro item [of "''outlet_copy''"] by auto
  have p1: "getpath rp [''data'', ''partner_1'', k] = Some (dict_get dets k)"
    if "k \<in> set partner_1_fields" for k
    using that rp by (rule getpath_partner_1_field)
  have p2: "getpath rp [''data'', ''partner_2'', k] = Some (dict_get dets k)"
    if "k \<in> set partner_2_fields" for k
    using that rp by (rule getpath_partner_2_field)
  have partner: "\<exists>r. process_item env m ((''partner_copy'', path) # rest) = Inr r \<and>
      (\<forall>k \<in> set partner_1_fields.
         getpath r [''data'', ''partner_1'', k] = Some (dict_get dets k) \<and>
         (k \<notin> fst ` set ncs \<longrightarrow> getpath r [''data'', ''partner_1'', k] = Some PNone)) \<and>
      (\<forall>k \<in> set partner_2_fields.
         getpath r [''data'', ''partner_2'', k] = Some (dict_get dets k) \<and>
         (k \<notin> fst ` set ncs \<longrightarrow> getpath r [''data'', ''partner_2'', k] = Some PNone))"
    using absent p1 p2 rp item [of "''partner_copy''"] by auto
  from outlet partner show ?thesis
    unfolding dets_def by blast
qed

theorem absent_class_gives_none_witness:
  "(\<exists>r. process_item sample_env () [(''outlet_copy'', ''dup.jpg'')] = Inr r \<and>
        getpath r [''data'', ''outlet_id''] = Some PNone) \<and>
   (\<exists>r. process_item sample_env () [(''partner_copy'', ''dup.jpg'')] = Inr r \<and>
        getpath r [''data'', ''partner_1'', ''name_1''] =
          Some (PImage (sample_image ''dup.jpg'', (20, 60, 90, 80))) \<and>
        getpath r [''data'', ''partner_1'', ''age_1''] = Some PNone \<and>
        getpath r [''data'', ''partner_2'', ''name''] = Some PNone)"
proof -
  let ?ncs = "[(''name_1'', (sample_image ''dup.jpg'', (10 :: int, 10 :: int, 50 :: int, 50 :: int))),
               (''name_1'', (sample_image ''dup.jpg'', (20 :: int, 60 :: int, 90 :: int, 80 :: int)))]"
  have lib: "image_open sample_env ''dup.jpg'' = Inr (sample_image ''dup.jpg'')"
    "model_call sample_env () (sample_image ''dup.jpg'') 0.5 0.45 =
       Inr [Some [mk_row 10 10 50 50 0.9 1, mk_row 20 60 90 80 0.6 1]]"
    by (simp_all add: sample_env_def sample_open_def sample_call_def sample_image_def)
  have rows: "map (row_detect sample_env () (sample_image ''dup.jpg''))
      (detected_rows [Some [mk_row 10 10 50 50 0.9 1, mk_row 20 60 90 80 0.6 1]]) =
    map Inr ?ncs"
    by (simp add: detected_rows_def row_detect_def detect_box_def mk_row_def sample_env_def
        sample_names_def trunc_def)
  have vals: "''outlet_id'' \<notin> fst ` set ?ncs" "''age_1'' \<notin> fst ` set ?ncs"
    "''name'' \<notin> fst ` set ?ncs"
    "dict_get (\<lambda>n. last_of_class n ?ncs) ''name_1'' =
       PImage (sample_image ''dup.jpg'', (20, 60, 90, 80))"
    by (simp_all add: dict_get_def last_of_class_def)
  have fields: "''name_1'' \<in> set partner_1_fields" "''age_1'' \<in> set partner_1_fields"
    "''name'' \<in> set partner_2_fields"
    by (simp_all add: partner_1_fields_def partner_2_fields_def)
  note T = absent_class_gives_none [OF lib rows, of "[]"]
  from T vals(1) have "\<exists>r. process_item sample_env () [(''outlet_copy'', ''dup.jpg'')] = Inr r \<and>
        getpath r [''data'', ''outlet_id''] = Some PNone"
    by blast
  moreover from T obtain r where r: "process_item sample_env () [(''partner_copy'', ''dup.jpg'')] = Inr r"
    and p1: "\<forall>k \<in> set partner_1_fields.
               getpath r [''data'', ''partner_1'', k] =
                 Some (dict_get (\<lambda>n. last_of_class n ?ncs) k) \<and>
               (k \<notin> fst ` set ?ncs \<longrightarrow> getpath r [''data'', ''partner_1'', k] = Some PNone)"
    and p2: "\<forall>k \<in> set partner_2_fields.
               getpath r [''data'', ''partner_2'', k] =
                 Some (dict_get (\<lambda>n. last_of_class n ?ncs) k) \<and>
               (k \<notin> fst ` set ?ncs \<longrightarrow> getpath r [''data'', ''partner_2'', k] = Some PNone)"
    by blast
  have "getpath r [''data'', ''partner_1'', ''name_1''] =
          Some (PImage (sample_image ''dup.jpg'', (20, 60, 90, 80)))"
    using p1 fields(1) vals(4) by metis
  moreover have "getpath r [''data'', ''partner_1'', ''age_1''] = Some PNone"
    using p1 fields(2) vals(2) by blast
  moreover have "getpath r [''data'', ''partner_2'', ''name''] = Some PNone"
    using p2 fields(3) vals(3) by blast
  ultimately show ?thesis using r by blast
qed

section \<open>The document type decides the record\<close>

text \<open>
  Claim C4. The result-building step never raises for the two document types: for every
  set of detections, \<open>outlet_copy\<close> gives an outlet record (type \<open>outlet_copy\<close>, data
  with exactly the key \<open>outlet_id\<close>) and \<open>partner_copy\<close> gives a partner record (type
  \<open>partner_copy\<close>, data with exactly the keys \<open>partner_1\<close> and \<open>partner_2\<close>, holding
  exactly the seven suffixed and the seven unsuffixed fields). Every record an item
  yields is the one of its key, and no record is of both variants; the field names of
  the two variants are disjoint.
\<close>

theorem variant_determined_by_tag:
  "(\<exists>r. build_result ''outlet_copy'' dets = Inr r \<and> outlet_schema r \<and> \<not> partner_schema r) \<and>
   (\<exists>r. build_result ''partner_copy'' dets = Inr r \<and> partner_schema r \<and> \<not> outlet_schema r) \<and>
   (process_item env m ((key, path) # rest) = Inr r' \<longrightarrow>
      (key = ''outlet_copy'' \<and> outlet_schema r' \<and> \<not> partner_schema r') \<or>
      (key = ''partner_copy'' \<and> partner_schema r' \<and> \<not> outlet_schema r')) \<and>
   set [''outlet_id''] \<inter>
     set ([''partner_1'', ''partner_2''] @ partner_1_fields @ partner_2_fields) = {}"
proof (intro conjI impI)
  show "\<exists>r. build_result ''outlet_copy'' dets = Inr r \<and> outlet_schema r \<and> \<not> partner_schema r"
    by (rule build_result_outlet_schema)
  show "\<exists>r. build_result ''partner_copy'' dets = Inr r \<and> partner_schema r \<and> \<not> outlet_schema r"
    by (rule build_result_partner_schema)
  show "set [''outlet_id''] \<inter>
      set ([''partner_1'', ''partner_2''] @ partner_1_fields @ partner_2_fields) = {}"
    by (simp add: partner_1_fields_def partner_2_fields_def)
  assume "process_item env m ((key, path) # rest) = Inr r'"
  then obtain dets' where b: "build_result key dets' = Inr r'"
    using process_item_Inr_built by fastforce
  then consider "key = ''outlet_copy''" | "key = ''partner_copy''"
    using build_result_cases by blast
  then show "(key = ''outlet_copy'' \<and> outlet_schema r' \<and> \<not> partner_schema r') \<or>
      (key = ''partner_copy'' \<and> partner_schema r' \<and> \<not> outlet_schema r')"
  proof cases
    case 1
    with b build_result_outlet_schema [of dets'] show ?thesis by auto
  next
    case 2
    with b build_result_partner_schema [of dets'] show ?thesis by auto
  qed
qed

theorem variant_determined_by_tag_witness:
  "outlet_schema (PDict [(''type'', PStr ''outlet_copy''),
     (''data'', PDict [(''outlet_id'', PImage (sample_image ''A.jpg'', (10 :: int, 10 :: int, 50 :: int, 50 :: int)))])]) \<and>
   \<not> outlet_schema (PDict [(''type'', PStr ''partner_copy''),
     (''data'', PDict
        [(''partner_1'', PDict
            [(''name_1'', PNone), (''partner_code_1'', PNone), (''age_1'', PNone),
             (''date_1'', PNone), (''sign_1'', PNone), (''cheek_mark_1'', PNone),
             (''phn_number_1'', PNone)]),
         (''partner_2'', PDict
            [(''name'', PNone), (''partner_code'', PNone), (''age'', PNone),
             (''date'', PNone), (''sign'', PNone), (''cheek_mark'', PNone),
             (''phn_number'', PNone :: (pil_image \<times> box) pyval)])])])"
proof -
  have "outlet_schema (PDict [(''type'', PStr ''outlet_copy''),
     (''data'', PDict [(''outlet_id'', PImage (sample_image ''A.jpg'', (10 :: int, 10 :: int, 50 :: int, 50 :: int)))])])"
    using variant_determined_by_tag [where env = sample_env and m = "()"
        and key = "''outlet_copy''" and path = "''A.jpg''" and rest = "[]"
        and dets = "Map.empty :: string \<rightharpoonup> unit"]
      sample_item_A [of "[]"]
    by simp
  moreover have "\<not> outlet_schema (PDict [(''type'', PStr ''partner_copy''),
     (''data'', PDict
        [(''partner_1'', PDict
            [(''name_1'', PNone), (''partner_code_1'', PNone), (''age_1'', PNone),
             (''date_1'', PNone), (''sign_1'', PNone), (''cheek_mark_1'', PNone),
             (''phn_number_1'', PNone)]),
         (''partner_2'', PDict
            [(''name'', PNone), (''partner_code'', PNone), (''age'', PNone),
             (''date'', PNone), (''sign'', PNone), (''cheek_mark'', PNone),
             (''phn_number'', PNone :: (pil_image \<times> box) pyval)])])])"
    using variant_determined_by_tag [where env = sample_env and m = "()"
        and key = "''partner_copy''" and path = "''B.jpg''" and rest = "[]"
        and dets = "Map.empty :: string \<rightharpoonup> unit"]
      sample_item_none [of "[]"]
    by simp
  ultimately show ?thesis by blast
qed

section \<open>Determinism\<close>

text \<open>
  Claim C8. The function has no state of its own and reads nothing but its argument and
  the answers of the libraries. Two invocations on the same batch are modelled as runs
  against two instances of the libraries. If loading the model gives the same outcome
  in both, opening the image of each item gives the same outcome in both, and on every
  image so opened the detector, the class names and the cropping answer alike, then
  both invocations produce the same outcome: the same list of records, or the same
  exception.
\<close>

theorem same_library_outputs_same_results:
  assumes "yolo_load env1 model_path = yolo_load env2 model_path"
    and "\<forall>key path rest. (key, path) # rest \<in> set images \<longrightarrow>
           image_open env1 path = image_open env2 path"
    and "\<forall>m key path rest img.
           yolo_load env1 model_path = Inr m \<and> (key, path) # rest \<in> set images \<and>
           image_open env1 path = Inr img \<longrightarrow>
             model_call env1 m img 0.5 0.45 = model_call env2 m img 0.5 0.45 \<and>
             model_names env1 m = model_names env2 m \<and>
             image_crop env1 img = image_crop env2 img"
  shows "extract_objects_from_images env1 images = extract_objects_from_images env2 images"
proof (cases "yolo_load env1 model_path")
  case (Inl e)
  moreover from Inl assms(1) have "yolo_load env2 model_path = Inl e"
    by simp
  ultimately show ?thesis
    by (simp add: extract_objects_from_images_def)
next
  case (Inr m)
  from Inr assms(1) have load2: "yolo_load env2 model_path = Inr m"
    by simp
  have item: "process_item env1 m d = process_item env2 m d" if d: "d \<in> set images" for d
  proof (cases d)
    case Nil
    then show ?thesis by (simp add: process_item_def)
  next
    case (Cons entry rest)
    obtain key path where entry: "entry = (key, path)" by (cases entry)
    have mem: "(key, path) # rest \<in> set images"
      using d Cons entry by simp
    with assms(2) have opens: "image_open env1 path = image_open env2 path"
      by blast
    show ?thesis
    proof (cases "image_open env1 path")
      case (Inl e)
      with opens have "image_open env2 path = Inl e" by simp
      with Inl show ?thesis
        unfolding Cons entry by (simp add: process_item_open_fails)
    next
      case open1: (Inr img)
      with opens have open2: "image_open env2 path = Inr img" by simp
      from assms(3) Inr mem open1
      have calls: "model_call env1 m img 0.5 0.45 = model_call env2 m img 0.5 0.45"
        and names: "model_names env1 m = model_names env2 m"
        and crops: "image_crop env1 img = image_crop env2 img"
        by blast+
      have loops: "res_loop env1 m img res Map.empty = res_loop env2 m img res Map.empty" for res
        using names crops by (rule res_loop_cong)
      show ?thesis
      proof (cases "model_call env1 m img 0.5 0.45")
        case (Inl e)
        with calls have "model_call env2 m img 0.5 0.45 = Inl e" by simp
        with Inl open1 open2 show ?thesis
          unfolding Cons entry by (simp add: process_item_call_fails)
      next
        case call1: (Inr res)
        with calls have call2: "model_call env2 m img 0.5 0.45 = Inr res" by simp
        show ?thesis
        proof (cases "res_loop env1 m img res Map.empty")
          case (Inl e)
          with loops have "res_loop env2 m img res Map.empty = Inl e" by simp
          with Inl open1 open2 call1 call2 show ?thesis
            unfolding Cons entry by (simp add: process_item_loop_fails)
        next
          case (Inr dets)
          with loops have "res_loop env2 m img res Map.empty = Inr dets" by simp
          with Inr open1 open2 call1 call2 show ?thesis
            unfolding Cons entry by (simp add: process_item_built)
        qed
      qed
    qed
  qed
  then have "images_loop env1 m images [] = images_loop env2 m images []"
    by (intro images_loop_cong) blast
  with Inr load2 show ?thesis
    by (simp add: extract_objects_from_images_def)
qed

theorem same_library_outputs_same_results_witness:
  "extract_objects_from_images sample_env
     [[(''outlet_copy'', ''A.jpg'')], [(''partner_copy'', ''dup.jpg'')],
      [(''outlet_copy'', ''corrupt.jpg'')]] =
   extract_objects_from_images other_env
     [[(''outlet_copy'', ''A.jpg'')], [(''partner_copy'', ''dup.jpg'')],
      [(''outlet_copy'', ''corrupt.jpg'')]] \<and>
   image_open sample_env ''elsewhere.jpg'' \<noteq> image_open other_env ''elsewhere.jpg''"
proof -
  have differ: "image_open sample_env ''elsewhere.jpg'' \<noteq> image_open other_env ''elsewhere.jpg''"
    by (simp add: other_env_def sample_env_def sample_open_def)
  have load: "yolo_load sample_env model_path = yolo_load other_env model_path"
    by (simp add: other_env_def)
  have opens: "\<forall>key path rest. (key, path) # rest \<in> set
       [[(''outlet_copy'', ''A.jpg'')], [(''partner_copy'', ''dup.jpg'')],
        [(''outlet_copy'', ''corrupt.jpg'')]] \<longrightarrow>
     image_open sample_env path = image_open other_env path"
    by (auto simp: other_env_def sample_env_def)
  have rest: "\<forall>m key path rest img.
       yolo_load sample_env model_path = Inr m \<and> (key, path) # rest \<in> set
         [[(''outlet_copy'', ''A.jpg'')], [(''partner_copy'', ''dup.jpg'')],
          [(''outlet_copy'', ''corrupt.jpg'')]] \<and>
       image_open sample_env path = Inr img \<longrightarrow>
         model_call sample_env m img 0.5 0.45 = model_call other_env m img 0.5 0.45 \<and>
         model_names sample_env m = model_names other_env m \<and>
         image_crop sample_env img = image_crop other_env img"
    by (simp add: other_env_def)
  show ?thesis
    using same_library_outputs_same_results [OF load opens rest] differ by simp
qed

end
